theory Spec2Isabelle
  imports Main
begin

section \<open>Python values used by \<open>api.py\<close>\<close>

subsection \<open>Exceptions\<close>

text \<open>
  Every exception of the model is a subclass of Python's \<open>Exception\<close>, so each is caught
  by an \<open>except Exception\<close> clause. \<open>DriverError\<close> stands for the errors of the database
  driver (server selection timeout, network error, ...), \<open>OSError\<close> for the errors of
  \<open>open\<close>/\<open>read\<close> other than a missing file. \<open>HTTPException\<close> is the framework's
  exception: status code and detail are what the caller receives.
\<close>

datatype pyexc =
    KeyError string
  | AttributeError string
  | OverflowError
  | FileNotFoundError
  | OSError string
  | DriverError string
  | HTTPException nat string

subsection \<open>Decimal rendering of integers\<close>

definition digit :: "nat \<Rightarrow> char" where
  "digit d = ''0123456789'' ! d"

function str_nat :: "nat \<Rightarrow> string" where
  "str_nat n = (if n < 10 then [digit n] else str_nat (n div 10) @ [digit (n mod 10)])"
  by pat_completeness auto
termination
  by (relation "measure id") auto

declare str_nat.simps [simp del]

definition str_int :: "int \<Rightarrow> string" where
  "str_int i = (if i < 0 then CHR ''-'' # str_nat (nat (- i)) else str_nat (nat i))"

text \<open>\<open>'%0kd' % n\<close> for a non-negative \<open>n\<close>: pad with zeros on the left to width \<open>k\<close>.\<close>

definition zpad :: "nat \<Rightarrow> nat \<Rightarrow> string" where
  "zpad k n = replicate (k - length (str_nat n)) CHR ''0'' @ str_nat n"

subsection \<open>\<open>datetime\<close> and \<open>timedelta\<close>\<close>

text \<open>
  A naive \<open>datetime\<close> is represented by the number of microseconds since
  0001-01-01T00:00:00 of the proleptic Gregorian calendar; this is the quantity Python's
  \<open>datetime.__add__\<close> computes with (\<open>timedelta(self.toordinal(), hours=.., ..)\<close>).
  A \<open>timedelta\<close> is a number of microseconds. The calendar fields are computed from
  the ordinal as \<open>_ord2ymd\<close> of the standard library does.
\<close>

type_synonym datetime = int
type_synonym timedelta = int

definition US_PER_DAY :: int where
  "US_PER_DAY = 86400000000"

definition MAXORDINAL :: int where
  "MAXORDINAL = 3652059"

definition timedelta_days :: "int \<Rightarrow> timedelta" where
  "timedelta_days d = d * US_PER_DAY"

definition timedelta_weeks :: "int \<Rightarrow> timedelta" where
  "timedelta_weeks w = timedelta_days (7 * w)"

definition toordinal :: "datetime \<Rightarrow> int" where
  "toordinal t = t div US_PER_DAY + 1"

definition datetime_valid :: "datetime \<Rightarrow> bool" where
  "datetime_valid t = (0 < toordinal t \<and> toordinal t \<le> MAXORDINAL)"

text \<open>
  \<open>now - timedelta(..)\<close>: the result is a \<open>datetime\<close> when its ordinal is within
  \<open>1 .. _MAXORDINAL\<close>, and \<open>OverflowError("date value out of range")\<close> otherwise.
\<close>

definition datetime_sub :: "datetime \<Rightarrow> timedelta \<Rightarrow> pyexc + datetime" where
  "datetime_sub t d =
     (let r = t - d
      in if 0 < toordinal r \<and> toordinal r \<le> MAXORDINAL then Inr r else Inl OverflowError)"

definition is_leap :: "int \<Rightarrow> bool" where
  "is_leap y = (y mod 4 = 0 \<and> (y mod 100 \<noteq> 0 \<or> y mod 400 = 0))"

definition days_before_year :: "int \<Rightarrow> int" where
  "days_before_year year = (let y = year - 1 in y * 365 + y div 4 - y div 100 + y div 400)"

definition DAYS_IN_MONTH :: "int list" where
  "DAYS_IN_MONTH = [-1, 31, 28, 31, 30, 31, 30, 31, 31, 30, 31, 30, 31]"

definition DAYS_BEFORE_MONTH :: "int list" where
  "DAYS_BEFORE_MONTH = [-1, 0, 31, 59, 90, 120, 151, 181, 212, 243, 273, 304, 334]"

definition days_before_month :: "int \<Rightarrow> int \<Rightarrow> int" where
  "days_before_month year month =
     DAYS_BEFORE_MONTH ! nat month + (if month > 2 \<and> is_leap year then 1 else 0)"

definition ymd2ord :: "int \<Rightarrow> int \<Rightarrow> int \<Rightarrow> int" where
  "ymd2ord year month day = days_before_year year + days_before_month year month + day"

definition ord2ymd :: "int \<Rightarrow> int \<times> int \<times> int" where
  "ord2ymd n0 =
     (let n = n0 - 1;
          n400 = n div 146097; n = n mod 146097;
          n100 = n div 36524; n = n mod 36524;
          n4 = n div 1461; n = n mod 1461;
          n1 = n div 365; n = n mod 365;
          year = n400 * 400 + 1 + n100 * 100 + n4 * 4 + n1
      in if n1 = 4 \<or> n100 = 4 then (year - 1, 12, 31)
         else
           let leapyear = (n1 = 3 \<and> (n4 \<noteq> 24 \<or> n100 = 3));
               month = (n + 50) div 32;
               preceding = DAYS_BEFORE_MONTH ! nat month
                           + (if month > 2 \<and> leapyear then 1 else 0)
           in if preceding > n
              then let month = month - 1;
                       preceding = preceding - (DAYS_IN_MONTH ! nat month
                                      + (if month = 2 \<and> leapyear then 1 else 0))
                   in (year, month, n - preceding + 1)
              else (year, month, n - preceding + 1))"

definition dt_year :: "datetime \<Rightarrow> int" where
  "dt_year t = fst (ord2ymd (toordinal t))"

definition dt_month :: "datetime \<Rightarrow> int" where
  "dt_month t = fst (snd (ord2ymd (toordinal t)))"

definition dt_day :: "datetime \<Rightarrow> int" where
  "dt_day t = snd (snd (ord2ymd (toordinal t)))"

definition dt_hour :: "datetime \<Rightarrow> int" where
  "dt_hour t = (t mod US_PER_DAY) div 3600000000"

definition dt_minute :: "datetime \<Rightarrow> int" where
  "dt_minute t = (t mod 3600000000) div 60000000"

definition dt_second :: "datetime \<Rightarrow> int" where
  "dt_second t = (t mod 60000000) div 1000000"

definition dt_microsecond :: "datetime \<Rightarrow> int" where
  "dt_microsecond t = t mod 1000000"

text \<open>The constructor \<open>datetime(year, month, day, hour, minute, second, microsecond)\<close>.\<close>

definition mk_datetime :: "int \<Rightarrow> int \<Rightarrow> int \<Rightarrow> int \<Rightarrow> int \<Rightarrow> int \<Rightarrow> int \<Rightarrow> datetime" where
  "mk_datetime y m d hh mm ss us =
     (ymd2ord y m d - 1) * US_PER_DAY + ((hh * 60 + mm) * 60 + ss) * 1000000 + us"

text \<open>
  \<open>strftime("%Y-%m-%d")\<close> and \<open>strftime("%H:%M:%S")\<close>. \<open>strftime\<close> hands the format to
  the C library, and on Linux (glibc) \<open>%Y\<close> is the decimal year without padding: the
  year 999 is rendered \<open>999\<close> and the year 1 \<open>1\<close>. \<open>%m\<close>, \<open>%d\<close>, \<open>%H\<close>, \<open>%M\<close>
  and \<open>%S\<close> are padded with zeros to two digits.
\<close>

definition strftime_Ymd :: "datetime \<Rightarrow> string" where
  "strftime_Ymd t =
     str_nat (nat (dt_year t)) @ ''-'' @ zpad 2 (nat (dt_month t)) @ ''-''
       @ zpad 2 (nat (dt_day t))"

definition strftime_HMS :: "datetime \<Rightarrow> string" where
  "strftime_HMS t =
     zpad 2 (nat (dt_hour t)) @ '':'' @ zpad 2 (nat (dt_minute t)) @ '':''
       @ zpad 2 (nat (dt_second t))"

text \<open>
  \<open>isoformat()\<close> does its own formatting, \<open>"%04d-%02d-%02d"\<close> for the date, so here the
  year has four digits; the microseconds are appended only when they are not zero.
  \<open>str\<close> of a \<open>datetime\<close> is \<open>isoformat\<close> with a space as separator.
\<close>

definition date_isoformat :: "datetime \<Rightarrow> string" where
  "date_isoformat t =
     zpad 4 (nat (dt_year t)) @ ''-'' @ zpad 2 (nat (dt_month t)) @ ''-'' @ zpad 2 (nat (dt_day t))"

definition isoformat_sep :: "char \<Rightarrow> datetime \<Rightarrow> string" where
  "isoformat_sep sep t =
     date_isoformat t @ [sep] @ strftime_HMS t
       @ (if dt_microsecond t \<noteq> 0 then ''.'' @ zpad 6 (nat (dt_microsecond t)) else [])"

definition isoformat :: "datetime \<Rightarrow> string" where
  "isoformat t = isoformat_sep CHR ''T'' t"

section \<open>Documents, queries and responses\<close>

text \<open>
  The values stored in the fields of a document, as the driver hands them to Python:
  integers, strings, booleans, dates (decoded to \<open>datetime\<close>) and null (\<open>None\<close>).
  Floating-point numbers, object ids, arrays and embedded documents are not part of the
  model. A document is a Python \<open>dict\<close>, kept as an association list in insertion
  order and read with \<open>map_of\<close>. The value a handler returns is built from dict and
  list displays whose leaves are such values.
\<close>

datatype bson = BInt int | BStr string | BBool bool | BDate datetime | BNull

type_synonym document = "(string \<times> bson) list"

datatype pyval = PAtom bson | PList "pyval list" | PDict "(string \<times> pyval) list"

text \<open>\<open>str(v)\<close>\<close>

fun py_str :: "bson \<Rightarrow> string" where
  "py_str (BInt i) = str_int i"
| "py_str (BStr s) = s"
| "py_str (BBool b) = (if b then ''True'' else ''False'')"
| "py_str (BDate t) = isoformat_sep CHR '' '' t"
| "py_str BNull = ''None''"

text \<open>\<open>d.get(k, default)\<close>; \<open>d.get(k)\<close> is \<open>dict_get d k BNull\<close>.\<close>

definition dict_get :: "document \<Rightarrow> string \<Rightarrow> bson \<Rightarrow> bson" where
  "dict_get d k dflt = (case map_of d k of None \<Rightarrow> dflt | Some v \<Rightarrow> v)"

text \<open>\<open>isinstance(v, datetime)\<close>\<close>

fun isinstance_datetime :: "bson \<Rightarrow> bool" where
  "isinstance_datetime (BDate t) = True"
| "isinstance_datetime _ = False"

text \<open>
  The filters the handlers pass to the database: a field equal to a value, and a field
  \<open>$gte\<close> a date. The database compares dates as stored, in milliseconds since the Unix
  epoch (the driver truncates the microseconds of the \<open>datetime\<close> it sends), and a
  \<open>$gte\<close> against a date selects only fields that hold a date. An equality with null also
  selects the documents that lack the field.
\<close>

datatype cond = Eq bson | Gte datetime

type_synonym query = "(string \<times> cond) list"

definition EPOCH :: datetime where
  "EPOCH = 62135596800000000"

definition datetime_to_millis :: "datetime \<Rightarrow> int" where
  "datetime_to_millis t = (t - EPOCH) div 1000"

fun matches_cond :: "cond \<Rightarrow> bson option \<Rightarrow> bool" where
  "matches_cond (Eq v) f = (f = Some v \<or> (v = BNull \<and> f = None))"
| "matches_cond (Gte c) (Some (BDate t)) = (datetime_to_millis c \<le> datetime_to_millis t)"
| "matches_cond (Gte c) _ = False"

definition matches :: "query \<Rightarrow> document \<Rightarrow> bool" where
  "matches q doc = list_all (\<lambda>(k, c). matches_cond c (map_of doc k)) q"

text \<open>An inclusion projection with \<open>_id\<close> excluded keeps the listed fields.\<close>

definition project :: "string list \<Rightarrow> document \<Rightarrow> document" where
  "project ks doc = filter (\<lambda>(k, v). k \<in> set ks) doc"

section \<open>The world of a handler\<close>

text \<open>
  A handler reads the clock, queries the database and reads a file. The world holds
  what each of these returns: \<open>now_at w k\<close> is the \<open>k\<close>-th reading of the clock,
  \<open>db_at w k c\<close> is what the \<open>k\<close>-th database call finds when it reads collection
  \<open>c\<close> (the documents in storage order, or the exception the driver raises),
  \<open>files w p\<close> is the result of reading the file \<open>p\<close>, and \<open>ping_result w c\<close> is the
  exception the liveness command raises on client \<open>c\<close>, if any. The counters
  \<open>ticks\<close> and \<open>calls\<close> advance with every reading and every call; \<open>trace\<close> records
  the liveness commands issued and the requests handled.
\<close>

datatype collection = user_activity_collection | auth_admins | banned_users

datatype client = MONGO_CLIENT | mongo_client

datatype request = GET_index | GET_stats | GET_banlist | GET_adminlist

datatype event = Pinged client | Served request | Closed client | StartupFailed

record world =
  now_at :: "nat \<Rightarrow> datetime"
  ticks :: nat
  db_at :: "nat \<Rightarrow> collection \<Rightarrow> pyexc + document list"
  calls :: nat
  files :: "string \<Rightarrow> pyexc + string"
  ping_result :: "client \<Rightarrow> pyexc option"
  trace :: "event list"

type_synonym 'a io = "world \<Rightarrow> (pyexc + 'a) \<times> world"

definition ret :: "'a \<Rightarrow> 'a io" where
  "ret x w = (Inr x, w)"

definition raise :: "pyexc \<Rightarrow> 'a io" where
  "raise e w = (Inl e, w)"

definition bnd :: "'a io \<Rightarrow> ('a \<Rightarrow> 'b io) \<Rightarrow> 'b io" where
  "bnd m f w = (case m w of (Inl e, w') \<Rightarrow> (Inl e, w') | (Inr x, w') \<Rightarrow> f x w')"

text \<open>\<open>try: m  except Exception as e: h e\<close>\<close>

definition except_Exception :: "'a io \<Rightarrow> (pyexc \<Rightarrow> 'a io) \<Rightarrow> 'a io" where
  "except_Exception m h w = (case m w of (Inl e, w') \<Rightarrow> h e w' | (Inr x, w') \<Rightarrow> (Inr x, w'))"

definition lift :: "pyexc + 'a \<Rightarrow> 'a io" where
  "lift r w = (r, w)"

text \<open>A list comprehension whose element expression has effects.\<close>

fun mapM :: "('a \<Rightarrow> 'b io) \<Rightarrow> 'a list \<Rightarrow> 'b list io" where
  "mapM f [] = ret []"
| "mapM f (x # xs) = bnd (f x) (\<lambda>y. bnd (mapM f xs) (\<lambda>ys. ret (y # ys)))"

text \<open>\<open>datetime.utcnow()\<close>\<close>

definition utcnow :: "datetime io" where
  "utcnow w = (Inr (now_at w (ticks w)), w\<lparr>ticks := Suc (ticks w)\<rparr>)"

text \<open>\<open>d[k]\<close>\<close>

definition item :: "document \<Rightarrow> string \<Rightarrow> bson io" where
  "item d k = (case map_of d k of None \<Rightarrow> raise (KeyError k) | Some v \<Rightarrow> ret v)"

text \<open>\<open>v.strftime(fmt)\<close>: only a \<open>datetime\<close> has the method.\<close>

definition strftime :: "bson \<Rightarrow> (datetime \<Rightarrow> string) \<Rightarrow> string io" where
  "strftime v fmt = (case v of BDate t \<Rightarrow> ret (fmt t) | _ \<Rightarrow> raise (AttributeError ''strftime''))"

text \<open>\<open>await c.count_documents(q)\<close>\<close>

definition count_documents :: "collection \<Rightarrow> query \<Rightarrow> nat io" where
  "count_documents c q w =
     ((case db_at w (calls w) c of
         Inl e \<Rightarrow> Inl e
       | Inr docs \<Rightarrow> Inr (length (filter (matches q) docs))),
      w\<lparr>calls := Suc (calls w)\<rparr>)"

text \<open>\<open>await c.find(q, projection).to_list(None)\<close>\<close>

definition find :: "collection \<Rightarrow> query \<Rightarrow> string list option \<Rightarrow> document list io" where
  "find c q proj w =
     ((case db_at w (calls w) c of
         Inl e \<Rightarrow> Inl e
       | Inr docs \<Rightarrow>
           Inr (map (case proj of None \<Rightarrow> id | Some ks \<Rightarrow> project ks)
                  (filter (matches q) docs))),
      w\<lparr>calls := Suc (calls w)\<rparr>)"

text \<open>\<open>with open(p, "r") as file: file.read()\<close>\<close>

definition read_file :: "string \<Rightarrow> string io" where
  "read_file p w = (files w p, w)"

text \<open>\<open>await c.admin.command("ping")\<close>\<close>

definition command_ping :: "client \<Rightarrow> unit io" where
  "command_ping c w =
     ((case ping_result w c of None \<Rightarrow> Inr () | Some e \<Rightarrow> Inl e),
      w\<lparr>trace := trace w @ [Pinged c]\<rparr>)"

definition close :: "client \<Rightarrow> unit io" where
  "close c w = (Inr (), w\<lparr>trace := trace w @ [Closed c]\<rparr>)"

section \<open>The handlers of \<open>api.py\<close>\<close>

text \<open>
  Each handler is the body of its \<open>try\<close> block (a definition of its own, suffixed
  \<open>_try\<close>, for the three API handlers) wrapped in its \<open>except\<close> clauses. The calls
  to \<open>LOGGER\<close> write to the log only and are left out.
\<close>

definition api_owner :: "string \<times> pyval" where
  "api_owner = (''api_owner'', PAtom (BStr ''@ISmartCoder''))"

definition api_dev :: "string \<times> pyval" where
  "api_dev = (''api_dev'', PAtom (BStr ''@TheSmartDev''))"

subsection \<open>\<open>GET /\<close>\<close>

datatype html_response = HTMLResponse string nat

definition get_index :: "html_response io" where
  "get_index =
     except_Exception
       (bnd (read_file ''index.html'') (\<lambda>html_content. ret (HTMLResponse html_content 200)))
       (\<lambda>e. if e = FileNotFoundError
            then raise (HTTPException 404 ''Index file not found'')
            else raise (HTTPException 500 ''Failed to serve index page''))"

subsection \<open>\<open>GET /api/stats\<close>\<close>

definition active_since :: "datetime \<Rightarrow> query" where
  "active_since cutoff = [(''is_group'', Eq (BBool False)), (''last_activity'', Gte cutoff)]"

definition get_stats_try :: "pyval io" where
  "get_stats_try =
     bnd utcnow (\<lambda>now.
     bnd (lift (datetime_sub now (timedelta_days 1))) (\<lambda>since_day.
     bnd (count_documents user_activity_collection (active_since since_day)) (\<lambda>daily_users.
     bnd (lift (datetime_sub now (timedelta_weeks 1))) (\<lambda>since_week.
     bnd (count_documents user_activity_collection (active_since since_week)) (\<lambda>weekly_users.
     bnd (lift (datetime_sub now (timedelta_days 30))) (\<lambda>since_month.
     bnd (count_documents user_activity_collection (active_since since_month)) (\<lambda>monthly_users.
     bnd (lift (datetime_sub now (timedelta_days 365))) (\<lambda>since_year.
     bnd (count_documents user_activity_collection (active_since since_year)) (\<lambda>yearly_users.
     bnd (count_documents user_activity_collection [(''is_group'', Eq (BBool False))]) (\<lambda>total_users.
     bnd (count_documents user_activity_collection [(''is_group'', Eq (BBool True))]) (\<lambda>total_groups.
     ret (PDict
       [api_owner,
        api_dev,
        (''stats'', PDict
          [(''daily_users'', PAtom (BInt (int daily_users))),
           (''weekly_users'', PAtom (BInt (int weekly_users))),
           (''monthly_users'', PAtom (BInt (int monthly_users))),
           (''yearly_users'', PAtom (BInt (int yearly_users))),
           (''total_users'', PAtom (BInt (int total_users))),
           (''total_groups'', PAtom (BInt (int total_groups)))]),
        (''timestamp'', PAtom (BStr (isoformat now)))]))))))))))))"

definition get_stats :: "pyval io" where
  "get_stats =
     except_Exception get_stats_try (\<lambda>e. raise (HTTPException 500 ''Failed to retrieve stats''))"

subsection \<open>\<open>GET /api/banlist\<close>\<close>

text \<open>
  The dict display of one banned user. Python evaluates \<open>str(user["user_id"])\<close> before
  it calls \<open>user.get\<close>, whether or not \<open>username\<close> is present.
\<close>

definition banned_entry :: "document \<Rightarrow> pyval io" where
  "banned_entry user =
     bnd (item user ''user_id'') (\<lambda>user_id.
     bnd (item user ''user_id'') (\<lambda>uid.
     ret (PDict
       [(''user_id'', PAtom user_id),
        (''full_name'', PAtom (dict_get user ''username'' (BStr (py_str uid)))),
        (''reason'', PAtom (dict_get user ''reason'' (BStr ''Undefined''))),
        (''ban_date'', PAtom (dict_get user ''ban_date'' (BStr ''Undefined'')))])))"

definition get_banlist_try :: "pyval io" where
  "get_banlist_try =
     bnd (find banned_users [] None) (\<lambda>banned_list.
     if banned_list = []
     then bnd utcnow (\<lambda>t.
          ret (PDict
            [api_owner,
             api_dev,
             (''banned_users'', PList []),
             (''total_banned'', PAtom (BInt 0)),
             (''timestamp'', PAtom (BStr (isoformat t)))]))
     else bnd (mapM banned_entry banned_list) (\<lambda>entries.
          bnd utcnow (\<lambda>t.
          ret (PDict
            [api_owner,
             api_dev,
             (''banned_users'', PList entries),
             (''total_banned'', PAtom (BInt (int (length banned_list)))),
             (''timestamp'', PAtom (BStr (isoformat t)))]))))"

definition get_banlist :: "pyval io" where
  "get_banlist =
     except_Exception get_banlist_try
       (\<lambda>e. raise (HTTPException 500 ''Failed to retrieve banlist''))"

subsection \<open>\<open>GET /api/adminlist\<close>\<close>

definition admin_fields :: "string list" where
  "admin_fields =
     [''user_id'', ''title'', ''auth_date'', ''username'', ''full_name'', ''auth_time'', ''auth_by'']"

text \<open>
  The synthetic owner entry. Strings are sequences of bytes; the \<open>full_name\<close> literal
  of the source ends in eight characters outside ASCII, given here by their UTF-8
  encoding as the source file holds it.
\<close>

definition owner_full_name :: string where
  "owner_full_name = ''Abir Arafat Chawdhury '' @
     [CHR 0xC3, CHR 0xB0, CHR 0xC5, CHR 0xB8, CHR 0xE2, CHR 0x80, CHR 0xA1, CHR 0xC2, CHR 0xA7,
      CHR 0xC3, CHR 0xB0, CHR 0xC5, CHR 0xB8, CHR 0xE2, CHR 0x80, CHR 0xA1, CHR 0xC2, CHR 0xA9]"

definition owner_entry :: pyval where
  "owner_entry = PDict
     [(''user_id'', PAtom (BInt 7666341631)),
      (''full_name'', PAtom (BStr owner_full_name)),
      (''title'', PAtom (BStr ''Owner'')),
      (''username'', PAtom (BStr ''@ISmartCoder'')),
      (''auth_date'', PAtom (BStr ''Infinity'')),
      (''auth_time'', PAtom (BStr ''Infinity'')),
      (''auth_by'', PAtom (BStr ''Abir Arafat Chawdhury''))]"

text \<open>
  The dict display of one admin. The conditional expression of \<open>auth_date\<close> tests
  \<open>isinstance(admin.get("auth_date"), datetime)\<close> first; only when it holds are the
  arguments of the nested \<open>get\<close> calls evaluated, \<open>datetime.utcnow()\<close> among them.
  The \<open>auth_time\<close> expression reads the clock before it calls \<open>get\<close>.
\<close>

definition admin_auth_date :: "document \<Rightarrow> bson io" where
  "admin_auth_date admin =
     (if isinstance_datetime (dict_get admin ''auth_date'' BNull)
      then bnd utcnow (\<lambda>t.
           bnd (strftime (dict_get admin ''auth_date'' (dict_get admin ''auth_time'' (BDate t)))
                  strftime_Ymd) (\<lambda>s.
           ret (BStr s)))
      else ret (BStr ''Unknown''))"

definition admin_auth_time :: "document \<Rightarrow> bson io" where
  "admin_auth_time admin =
     bnd utcnow (\<lambda>t.
     bnd (strftime (dict_get admin ''auth_time'' (BDate t)) strftime_HMS) (\<lambda>s.
     ret (BStr s)))"

definition admin_entry :: "document \<Rightarrow> pyval io" where
  "admin_entry admin =
     bnd (item admin ''user_id'') (\<lambda>user_id.
     bnd (item admin ''title'') (\<lambda>title.
     bnd (admin_auth_date admin) (\<lambda>auth_date.
     bnd (admin_auth_time admin) (\<lambda>auth_time.
     ret (PDict
       [(''user_id'', PAtom user_id),
        (''full_name'', PAtom (dict_get admin ''full_name'' (BStr ''Unknown''))),
        (''title'', PAtom title),
        (''username'', PAtom (dict_get admin ''username'' (BStr ''None''))),
        (''auth_date'', PAtom auth_date),
        (''auth_time'', PAtom auth_time),
        (''auth_by'', PAtom (dict_get admin ''auth_by'' (BStr ''Unknown'')))])))))"

definition get_adminlist_try :: "pyval io" where
  "get_adminlist_try =
     bnd (find auth_admins [] (Some admin_fields)) (\<lambda>admins.
     bnd (mapM admin_entry admins) (\<lambda>entries.
     let admin_list = [owner_entry] @ entries in
     bnd utcnow (\<lambda>t.
     ret (PDict
       [api_owner,
        api_dev,
        (''admins'', PList admin_list),
        (''total_admins'', PAtom (BInt (int (length admin_list)))),
        (''timestamp'', PAtom (BStr (isoformat t)))]))))"

definition get_adminlist :: "pyval io" where
  "get_adminlist =
     except_Exception get_adminlist_try
       (\<lambda>e. raise (HTTPException 500 ''Failed to retrieve adminlist''))"

section \<open>Startup\<close>

text \<open>
  \<open>lifespan\<close> is an asynchronous context manager: the part before its \<open>yield\<close> runs
  when the context is entered, the part after it when the context is left.
\<close>

record lifespan_cm =
  enter :: "unit io"
  leave :: "unit io"

definition lifespan :: lifespan_cm where
  "lifespan =
     \<lparr>enter =
        except_Exception
          (bnd (command_ping MONGO_CLIENT) (\<lambda>_. command_ping mongo_client))
          (\<lambda>e. raise (HTTPException 500 ''Database connection failed'')),
      leave = bnd (close MONGO_CLIENT) (\<lambda>_. close mongo_client)\<rparr>"

text \<open>
  The application object of the framework. Its constructor takes the lifespan as the
  keyword argument \<open>lifespan\<close> and stores it in the router (\<open>router.lifespan_context\<close>);
  without the argument the router holds a default context that does nothing. At startup
  the server runs the router's context up to its \<open>yield\<close>, refuses to serve when that
  raises, and otherwise handles requests; at shutdown it runs the rest of the context.
  An assignment \<open>app.name = v\<close> sets an attribute of the object; the framework defines no
  attribute \<open>lifespan\<close> on the application and reads none.
\<close>

record fastapi =
  lifespan_context :: lifespan_cm
  attributes :: "(string \<times> lifespan_cm) list"

definition default_lifespan :: lifespan_cm where
  "default_lifespan = \<lparr>enter = ret (), leave = ret ()\<rparr>"

definition FastAPI :: "lifespan_cm option \<Rightarrow> fastapi" where
  "FastAPI ls =
     \<lparr>lifespan_context = (case ls of None \<Rightarrow> default_lifespan | Some l \<Rightarrow> l),
      attributes = []\<rparr>"

definition setattr :: "fastapi \<Rightarrow> string \<Rightarrow> lifespan_cm \<Rightarrow> fastapi" where
  "setattr a name v = a\<lparr>attributes := (name, v) # filter (\<lambda>(k, _). k \<noteq> name) (attributes a)\<rparr>"

text \<open>
  \<open>app = FastAPI(title=.., description=..)\<close> followed by \<open>app.lifespan = lifespan\<close>.
\<close>

definition app :: fastapi where
  "app = setattr (FastAPI None) ''lifespan'' lifespan"

definition handle :: "request \<Rightarrow> world \<Rightarrow> world" where
  "handle r w =
     (let w1 = w\<lparr>trace := trace w @ [Served r]\<rparr>
      in case r of
           GET_index \<Rightarrow> snd (get_index w1)
         | GET_stats \<Rightarrow> snd (get_stats w1)
         | GET_banlist \<Rightarrow> snd (get_banlist w1)
         | GET_adminlist \<Rightarrow> snd (get_adminlist w1))"

definition serve :: "fastapi \<Rightarrow> request list \<Rightarrow> world \<Rightarrow> world" where
  "serve a reqs w =
     (case enter (lifespan_context a) w of
        (Inl e, w1) \<Rightarrow> w1\<lparr>trace := trace w1 @ [StartupFailed]\<rparr>
      | (Inr u, w1) \<Rightarrow> snd (leave (lifespan_context a) (fold handle reqs w1)))"

section \<open>Reading responses\<close>

text \<open>\<open>d[k]\<close> on a returned dict, as an option.\<close>

fun field :: "pyval \<Rightarrow> string \<Rightarrow> pyval option" where
  "field (PDict kvs) k = map_of kvs k"
| "field _ k = None"

text \<open>An integer counter of the \<open>stats\<close> object of a stats response.\<close>

definition stat :: "pyval \<Rightarrow> string \<Rightarrow> int option" where
  "stat resp k =
     (case field resp ''stats'' of
        Some st \<Rightarrow> (case field st k of Some (PAtom (BInt n)) \<Rightarrow> Some n | _ \<Rightarrow> None)
      | None \<Rightarrow> None)"

section \<open>Example data\<close>

text \<open>
  A database with six activity records (five users seen at different times, one group),
  three admins and two banned users, read at 2024-03-15 10:30:00; the clock advances by
  one second with every reading.
\<close>

definition activity_example :: "document list" where
  "activity_example =
     [[(''user_id'', BInt 1), (''is_group'', BBool False),
       (''last_activity'', BDate (mk_datetime 2024 3 15 9 0 0 0))],
      [(''user_id'', BInt 2), (''is_group'', BBool False),
       (''last_activity'', BDate (mk_datetime 2024 3 10 9 0 0 0))],
      [(''user_id'', BInt 3), (''is_group'', BBool False),
       (''last_activity'', BDate (mk_datetime 2024 2 20 9 0 0 0))],
      [(''user_id'', BInt 4), (''is_group'', BBool False),
       (''last_activity'', BDate (mk_datetime 2023 6 1 9 0 0 0))],
      [(''user_id'', BInt 5), (''is_group'', BBool False),
       (''last_activity'', BDate (mk_datetime 2020 6 1 9 0 0 0))],
      [(''user_id'', BInt (- 100)), (''is_group'', BBool True),
       (''last_activity'', BDate (mk_datetime 2024 3 15 9 0 0 0))]]"

definition admins_example :: "document list" where
  "admins_example =
     [[(''_id'', BInt 1), (''user_id'', BInt 11), (''title'', BStr ''Admin''),
       (''username'', BStr ''@alice''), (''full_name'', BStr ''Alice''),
       (''auth_date'', BDate (mk_datetime 2023 5 1 8 15 30 0)),
       (''auth_time'', BDate (mk_datetime 2023 5 1 8 15 30 0)),
       (''auth_by'', BStr ''Owner'')],
      [(''_id'', BInt 2), (''user_id'', BInt 12), (''title'', BStr ''Moderator''),
       (''auth_date'', BStr ''2023-05-02''),
       (''auth_time'', BDate (mk_datetime 2023 5 2 21 5 9 0))],
      [(''_id'', BInt 3), (''user_id'', BInt 13), (''title'', BStr ''Helper'')]]"

definition banned_example :: "document list" where
  "banned_example =
     [[(''_id'', BInt 1), (''user_id'', BInt 21), (''username'', BStr ''spammer''),
       (''reason'', BStr ''spam''), (''ban_date'', BStr ''2024-01-01'')],
      [(''_id'', BInt 2), (''user_id'', BInt 22)]]"

definition world_example :: world where
  "world_example =
     \<lparr>now_at = (\<lambda>k. mk_datetime 2024 3 15 10 30 0 0 + int k * 1000000),
      ticks = 0,
      db_at = (\<lambda>k c. case c of
                 user_activity_collection \<Rightarrow> Inr activity_example
               | auth_admins \<Rightarrow> Inr admins_example
               | banned_users \<Rightarrow> Inr banned_example),
      calls = 0,
      files = (\<lambda>p. if p = ''index.html'' then Inr ''<html></html>'' else Inl FileNotFoundError),
      ping_result = (\<lambda>c. None),
      trace = []\<rparr>"

text \<open>The same world with empty collections.\<close>

definition world_empty :: world where
  "world_empty = world_example\<lparr>db_at := (\<lambda>k c. Inr [])\<rparr>"

text \<open>
  A world whose databases are unreachable: every liveness command and every query raises,
  and the page asset cannot be read.
\<close>

definition world_down :: world where
  "world_down =
     world_example
       \<lparr>db_at := (\<lambda>k c. Inl (DriverError ''db.internal:27017: connection refused'')),
        files := (\<lambda>p. Inl (OSError ''Permission denied'')),
        ping_result := (\<lambda>c. Some (DriverError ''db.internal:27017: connection refused''))\<rparr>"

text \<open>The stats response of the example world.\<close>

definition stats_example :: pyval where
  "stats_example = PDict
     [(''api_owner'', PAtom (BStr ''@ISmartCoder'')),
      (''api_dev'', PAtom (BStr ''@TheSmartDev'')),
      (''stats'', PDict
        [(''daily_users'', PAtom (BInt 1)),
         (''weekly_users'', PAtom (BInt 2)),
         (''monthly_users'', PAtom (BInt 3)),
         (''yearly_users'', PAtom (BInt 4)),
         (''total_users'', PAtom (BInt 5)),
         (''total_groups'', PAtom (BInt 1))]),
      (''timestamp'', PAtom (BStr ''2024-03-15T10:30:00''))]"

definition banlist_example :: pyval where
  "banlist_example = PDict
     [(''api_owner'', PAtom (BStr ''@ISmartCoder'')),
      (''api_dev'', PAtom (BStr ''@TheSmartDev'')),
      (''banned_users'', PList
        [PDict
          [(''user_id'', PAtom (BInt 21)),
           (''full_name'', PAtom (BStr ''spammer'')),
           (''reason'', PAtom (BStr ''spam'')),
           (''ban_date'', PAtom (BStr ''2024-01-01''))],
         PDict
          [(''user_id'', PAtom (BInt 22)),
           (''full_name'', PAtom (BStr ''22'')),
           (''reason'', PAtom (BStr ''Undefined'')),
           (''ban_date'', PAtom (BStr ''Undefined''))]]),
      (''total_banned'', PAtom (BInt 2)),
      (''timestamp'', PAtom (BStr ''2024-03-15T10:30:00''))]"

definition adminlist_example :: pyval where
  "adminlist_example = PDict
     [(''api_owner'', PAtom (BStr ''@ISmartCoder'')),
      (''api_dev'', PAtom (BStr ''@TheSmartDev'')),
      (''admins'', PList
        [owner_entry,
         PDict
          [(''user_id'', PAtom (BInt 11)),
           (''full_name'', PAtom (BStr ''Alice'')),
           (''title'', PAtom (BStr ''Admin'')),
           (''username'', PAtom (BStr ''@alice'')),
           (''auth_date'', PAtom (BStr ''2023-05-01'')),
           (''auth_time'', PAtom (BStr ''08:15:30'')),
           (''auth_by'', PAtom (BStr ''Owner''))],
         PDict
          [(''user_id'', PAtom (BInt 12)),
           (''full_name'', PAtom (BStr ''Unknown'')),
           (''title'', PAtom (BStr ''Moderator'')),
           (''username'', PAtom (BStr ''None'')),
           (''auth_date'', PAtom (BStr ''Unknown'')),
           (''auth_time'', PAtom (BStr ''21:05:09'')),
           (''auth_by'', PAtom (BStr ''Unknown''))],
         PDict
          [(''user_id'', PAtom (BInt 13)),
           (''full_name'', PAtom (BStr ''Unknown'')),
           (''title'', PAtom (BStr ''Helper'')),
           (''username'', PAtom (BStr ''None'')),
           (''auth_date'', PAtom (BStr ''Unknown'')),
           (''auth_time'', PAtom (BStr ''10:30:03'')),
           (''auth_by'', PAtom (BStr ''Unknown''))]]),
      (''total_admins'', PAtom (BInt 4)),
      (''timestamp'', PAtom (BStr ''2024-03-15T10:30:04''))]"

text \<open>A world whose admin collection holds a record with a string \<open>auth_time\<close>.\<close>

definition world_bad_admin :: world where
  "world_bad_admin =
     world_example
       \<lparr>db_at := (\<lambda>k c. Inr [[(''user_id'', BInt 14), (''title'', BStr ''Admin''),
                                (''auth_time'', BStr ''12:00:00'')]])\<rparr>"





text \<open>A world without the page asset.\<close>

definition world_no_index :: world where
  "world_no_index = world_example\<lparr>files := (\<lambda>p. Inl FileNotFoundError)\<rparr>"

section \<open>Notions used in the properties\<close>



text \<open>A computation that issues no liveness command and handles no request.\<close>

definition silent :: "'a io \<Rightarrow> bool" where
  "silent m = (\<forall>w. trace (snd (m w)) = trace w)"

text \<open>
  An admin record from which an entry can be built: \<open>user_id\<close> and \<open>title\<close> are
  present, and \<open>auth_time\<close> is absent or a \<open>datetime\<close>.
\<close>

definition admin_wellformed :: "document \<Rightarrow> bool" where
  "admin_wellformed doc =
     (map_of doc ''user_id'' \<noteq> None \<and> map_of doc ''title'' \<noteq> None
      \<and> (case map_of doc ''auth_time'' of None \<Rightarrow> True | Some v \<Rightarrow> isinstance_datetime v))"

section \<open>Properties\<close>

subsection \<open>The effect monad\<close>

lemma bnd_Inr_iff:
  "bnd m f w = (Inr y, w') \<longleftrightarrow> (\<exists>x w1. m w = (Inr x, w1) \<and> f x w1 = (Inr y, w'))"
  by (auto simp: bnd_def split: prod.splits sum.splits)

lemma ret_iff [simp]: "ret x w = (r, w') \<longleftrightarrow> r = Inr x \<and> w' = w"
  by (auto simp: ret_def)

lemma lift_Inr_iff [simp]: "lift r w = (Inr x, w') \<longleftrightarrow> r = Inr x \<and> w' = w"
  by (auto simp: lift_def)

lemma utcnow_iff [simp]:
  "utcnow w = (r, w') \<longleftrightarrow> r = Inr (now_at w (ticks w)) \<and> w' = w\<lparr>ticks := Suc (ticks w)\<rparr>"
  by (auto simp: utcnow_def)

lemma count_documents_Inr_iff:
  "count_documents c q w = (Inr n, w') \<longleftrightarrow>
     (\<exists>docs. db_at w (calls w) c = Inr docs \<and> n = length (filter (matches q) docs))
     \<and> w' = w\<lparr>calls := Suc (calls w)\<rparr>"
  by (auto simp: count_documents_def split: sum.splits)

lemma except_raise_Inr_iff [simp]:
  "except_Exception m (\<lambda>e. raise (h e)) w = (Inr x, w') \<longleftrightarrow> m w = (Inr x, w')"
  by (auto simp: except_Exception_def raise_def split: prod.splits sum.splits)

subsection \<open>Rendering of dates\<close>

text \<open>
  The rendered strings have the shapes their formats name: \<open>%H:%M:%S\<close> gives eight
  characters for every instant, and for a valid \<open>datetime\<close> (ordinal within
  \<open>1 .. _MAXORDINAL\<close>) the ISO date has ten and \<open>isoformat\<close> nineteen, or
  twenty-six with microseconds.
\<close>

lemma length_str_nat_lt_10: "n < 10 \<Longrightarrow> length (str_nat n) = 1"
  by (simp add: str_nat.simps)

lemma length_str_nat_lt_100: "n < 100 \<Longrightarrow> length (str_nat n) \<le> 2"
  by (subst str_nat.simps) (simp add: length_str_nat_lt_10)

lemma length_str_nat_lt_1000: "n < 1000 \<Longrightarrow> length (str_nat n) \<le> 3"
  using length_str_nat_lt_100[of "n div 10"] by (subst str_nat.simps) simp

lemma length_str_nat_lt_10000: "n < 10000 \<Longrightarrow> length (str_nat n) \<le> 4"
  using length_str_nat_lt_1000[of "n div 10"] by (subst str_nat.simps) simp

lemma length_zpad: "length (str_nat n) \<le> k \<Longrightarrow> length (zpad k n) = k"
  by (simp add: zpad_def)

lemma div_less_bound:
  fixes x d k :: int
  assumes "0 < d" and "x < k * d"
  shows "x div d < k"
proof (rule ccontr)
  assume "\<not> x div d < k"
  then have "d * k \<le> d * (x div d)"
    using assms(1) by (simp add: mult_left_mono)
  moreover have "d * (x div d) + x mod d = x"
    by simp
  moreover have "0 \<le> x mod d"
    using assms(1) by simp
  ultimately have "d * k \<le> x"
    by linarith
  with assms(2) show False
    by (simp add: mult.commute)
qed

lemma div_bounds:
  fixes a m d k :: int
  assumes "0 < d" "0 < m" "m = k * d"
  shows "0 \<le> (a mod m) div d \<and> (a mod m) div d < k"
proof -
  have "0 \<le> a mod m" "a mod m < k * d"
    using assms by simp_all
  then show ?thesis
    using assms(1) by (simp add: pos_imp_zdiv_nonneg_iff div_less_bound)
qed

lemma dt_time_bounds:
  "0 \<le> dt_hour t \<and> dt_hour t < 24"
  "0 \<le> dt_minute t \<and> dt_minute t < 60"
  "0 \<le> dt_second t \<and> dt_second t < 60"
  unfolding dt_hour_def dt_minute_def dt_second_def US_PER_DAY_def
  by (rule div_bounds; simp)+

lemma strftime_HMS_shape:
  "length (strftime_HMS t) = 8 \<and> strftime_HMS t ! 2 = CHR '':'' \<and> strftime_HMS t ! 5 = CHR '':''"
proof -
  have "nat (dt_hour t) < 100" "nat (dt_minute t) < 100" "nat (dt_second t) < 100"
    using dt_time_bounds[of t] by linarith+
  then have l: "length (zpad 2 (nat (dt_hour t))) = 2" "length (zpad 2 (nat (dt_minute t))) = 2"
    "length (zpad 2 (nat (dt_second t))) = 2"
    by (simp_all add: length_zpad length_str_nat_lt_100)
  then show ?thesis
    by (simp add: strftime_HMS_def nth_append)
qed

lemma month_day_bounds:
  fixes n :: int and leap :: bool
  assumes "0 \<le> n" "n \<le> 364"
    and month_def: "month = (n + 50) div 32"
    and preceding_def:
      "preceding = DAYS_BEFORE_MONTH ! nat month + (if month > 2 \<and> leap then 1 else 0)"
  shows "if preceding > n
         then 1 \<le> month - 1 \<and> month - 1 \<le> 12
              \<and> 1 \<le> n - (preceding - (DAYS_IN_MONTH ! nat (month - 1)
                         + (if month - 1 = 2 \<and> leap then 1 else 0))) + 1
              \<and> n - (preceding - (DAYS_IN_MONTH ! nat (month - 1)
                         + (if month - 1 = 2 \<and> leap then 1 else 0))) + 1 \<le> 31
         else 1 \<le> month \<and> month \<le> 12 \<and> 1 \<le> n - preceding + 1 \<and> n - preceding + 1 \<le> 31"
proof -
  have m: "32 * month \<le> n + 50" "n + 50 < 32 * month + 32"
    unfolding month_def by presburger+
  with assms(1,2) have "1 \<le> month" "month \<le> 12"
    by linarith+
  then consider "month = 1" | "month = 2" | "month = 3" | "month = 4" | "month = 5" | "month = 6"
    | "month = 7" | "month = 8" | "month = 9" | "month = 10" | "month = 11" | "month = 12"
    by atomize_elim arith
  then show ?thesis
  proof cases
    case 1 with m assms(1,2) show ?thesis
      by (simp add: preceding_def DAYS_BEFORE_MONTH_def DAYS_IN_MONTH_def)
  next
    case 2 with m assms(1,2) show ?thesis
      by (simp add: preceding_def DAYS_BEFORE_MONTH_def DAYS_IN_MONTH_def)
  next
    case 3 with m assms(1,2) show ?thesis
      by (simp add: preceding_def DAYS_BEFORE_MONTH_def DAYS_IN_MONTH_def)
  next
    case 4 with m assms(1,2) show ?thesis
      by (simp add: preceding_def DAYS_BEFORE_MONTH_def DAYS_IN_MONTH_def)
  next
    case 5 with m assms(1,2) show ?thesis
      by (simp add: preceding_def DAYS_BEFORE_MONTH_def DAYS_IN_MONTH_def)
  next
    case 6 with m assms(1,2) show ?thesis
      by (simp add: preceding_def DAYS_BEFORE_MONTH_def DAYS_IN_MONTH_def)
  next
    case 7 with m assms(1,2) show ?thesis
      by (simp add: preceding_def DAYS_BEFORE_MONTH_def DAYS_IN_MONTH_def)
  next
    case 8 with m assms(1,2) show ?thesis
      by (simp add: preceding_def DAYS_BEFORE_MONTH_def DAYS_IN_MONTH_def)
  next
    case 9 with m assms(1,2) show ?thesis
      by (simp add: preceding_def DAYS_BEFORE_MONTH_def DAYS_IN_MONTH_def)
  next
    case 10 with m assms(1,2) show ?thesis
      by (simp add: preceding_def DAYS_BEFORE_MONTH_def DAYS_IN_MONTH_def)
  next
    case 11 with m assms(1,2) show ?thesis
      by (simp add: preceding_def DAYS_BEFORE_MONTH_def DAYS_IN_MONTH_def)
  next
    case 12 with m assms(1,2) show ?thesis
      by (simp add: preceding_def DAYS_BEFORE_MONTH_def DAYS_IN_MONTH_def)
  qed
qed

lemma year_upper:
  fixes n400 n100 n4 n1 n :: int
  assumes "146097 * n400 + 36524 * n100 + 1461 * n4 + 365 * n1 + n \<le> 3652058"
    and "0 \<le> n400" "0 \<le> n100" "n100 \<le> 3" "0 \<le> n4" "n4 \<le> 24" "0 \<le> n1" "n1 \<le> 3" "0 \<le> n"
  shows "400 * n400 + 100 * n100 + 4 * n4 + n1 \<le> 9998"
  using assms by arith

lemma year_upper_end:
  fixes n400 n100 n4 n1 n :: int
  assumes "146097 * n400 + 36524 * n100 + 1461 * n4 + 365 * n1 + n \<le> 3652058"
    and "0 \<le> n400" "0 \<le> n100" "n100 \<le> 4" "0 \<le> n4" "n4 \<le> 24" "0 \<le> n1" "n1 \<le> 4" "0 \<le> n"
    and "n1 = 4 \<or> n100 = 4"
    and "n100 = 4 \<longrightarrow> n4 = 0 \<and> n1 = 0"
  shows "400 * n400 + 100 * n100 + 4 * n4 + n1 \<le> 9999"
  using assms by arith

lemma ord2ymd_bounds:
  assumes "1 \<le> n0" "n0 \<le> MAXORDINAL"
  shows "1 \<le> fst (ord2ymd n0) \<and> fst (ord2ymd n0) \<le> 9999
       \<and> 1 \<le> fst (snd (ord2ymd n0)) \<and> fst (snd (ord2ymd n0)) \<le> 12
       \<and> 1 \<le> snd (snd (ord2ymd n0)) \<and> snd (snd (ord2ymd n0)) \<le> 31"
proof -
  define a where "a = n0 - 1"
  define n400 where "n400 = a div 146097"
  define r1 where "r1 = a mod 146097"
  define n100 where "n100 = r1 div 36524"
  define r2 where "r2 = r1 mod 36524"
  define n4 where "n4 = r2 div 1461"
  define r3 where "r3 = r2 mod 1461"
  define n1 where "n1 = r3 div 365"
  define n where "n = r3 mod 365"
  define year where "year = n400 * 400 + 1 + n100 * 100 + n4 * 4 + n1"
  define leapyear where "leapyear \<longleftrightarrow> n1 = 3 \<and> (n4 \<noteq> 24 \<or> n100 = 3)"
  define month where "month = (n + 50) div 32"
  define preceding where
    "preceding = DAYS_BEFORE_MONTH ! nat month + (if month > 2 \<and> leapyear then 1 else 0)"
  have a: "0 \<le> a" "a \<le> 3652058"
    using assms by (simp_all add: a_def MAXORDINAL_def)
  have d1: "a = 146097 * n400 + r1" "0 \<le> r1" "r1 < 146097"
    by (simp_all add: n400_def r1_def)
  have d2: "r1 = 36524 * n100 + r2" "0 \<le> r2" "r2 < 36524"
    by (simp_all add: n100_def r2_def)
  have d3: "r2 = 1461 * n4 + r3" "0 \<le> r3" "r3 < 1461"
    by (simp_all add: n4_def r3_def)
  have d4: "r3 = 365 * n1 + n" "0 \<le> n" "n < 365"
    by (simp_all add: n1_def n_def)
  have q: "0 \<le> n400" "0 \<le> n100" "n100 \<le> 4" "0 \<le> n4" "n4 \<le> 24" "0 \<le> n1" "n1 \<le> 4"
    using a d1 d2 d3 d4 by arith+
  have total: "146097 * n400 + 36524 * n100 + 1461 * n4 + 365 * n1 + n \<le> 3652058"
    using a d1 d2 d3 d4 by linarith
  have unfold: "ord2ymd n0 =
     (if n1 = 4 \<or> n100 = 4 then (year - 1, 12, 31)
      else if preceding > n
           then (year, month - 1,
                 n - (preceding - (DAYS_IN_MONTH ! nat (month - 1)
                        + (if month - 1 = 2 \<and> leapyear then 1 else 0))) + 1)
           else (year, month, n - preceding + 1))"
    unfolding ord2ymd_def Let_def preceding_def month_def leapyear_def year_def n_def n1_def
      r3_def n4_def r2_def n100_def r1_def n400_def a_def
    by (rule refl)
  show ?thesis
  proof (cases "n1 = 4 \<or> n100 = 4")
    case True
    have "n100 = 4 \<longrightarrow> n4 = 0 \<and> n1 = 0"
      using d1 d2 d3 d4 q by arith
    from year_upper_end[OF total q(1-7) d4(2) True this]
    have "year - 1 \<le> 9999"
      by (simp add: year_def)
    moreover from True q have "1 \<le> year - 1"
      by (auto simp: year_def)
    moreover from True have "ord2ymd n0 = (year - 1, 12, 31)"
      by (simp only: unfold if_True)
    ultimately show ?thesis
      by simp
  next
    case False
    with q have small: "n100 \<le> 3" "n1 \<le> 3"
      by linarith+
    from year_upper[OF total q(1,2) small(1) q(4,5,6) small(2) d4(2)]
    have y: "1 \<le> year" "year \<le> 9999"
      using q by (simp_all add: year_def)
    from d4 have n: "0 \<le> n" "n \<le> 364"
      by simp_all
    note md = month_day_bounds[OF n month_def preceding_def]
    show ?thesis
    proof (cases "preceding > n")
      case True
      with False have "ord2ymd n0 = (year, month - 1,
                 n - (preceding - (DAYS_IN_MONTH ! nat (month - 1)
                        + (if month - 1 = 2 \<and> leapyear then 1 else 0))) + 1)"
        by (simp only: unfold if_False if_True)
      moreover from md True have "1 \<le> month - 1 \<and> month - 1 \<le> 12
              \<and> 1 \<le> n - (preceding - (DAYS_IN_MONTH ! nat (month - 1)
                         + (if month - 1 = 2 \<and> leapyear then 1 else 0))) + 1
              \<and> n - (preceding - (DAYS_IN_MONTH ! nat (month - 1)
                         + (if month - 1 = 2 \<and> leapyear then 1 else 0))) + 1 \<le> 31"
        by (simp only: if_True)
      ultimately show ?thesis
        using y by (simp only: fst_conv snd_conv)
    next
      case nle: False
      with False have "ord2ymd n0 = (year, month, n - preceding + 1)"
        by (simp only: unfold if_False)
      moreover from md nle have "1 \<le> month \<and> month \<le> 12
          \<and> 1 \<le> n - preceding + 1 \<and> n - preceding + 1 \<le> 31"
        by (simp only: if_False)
      ultimately show ?thesis
        using y by (simp only: fst_conv snd_conv)
    qed
  qed
qed

lemma date_isoformat_shape:
  assumes "datetime_valid t"
  shows "length (date_isoformat t) = 10 \<and> date_isoformat t ! 4 = CHR ''-''
       \<and> date_isoformat t ! 7 = CHR ''-''"
proof -
  from assms have "1 \<le> toordinal t" "toordinal t \<le> MAXORDINAL"
    by (simp_all add: datetime_valid_def)
  from ord2ymd_bounds[OF this]
  have b: "nat (dt_year t) < 10000" "nat (dt_month t) < 100" "nat (dt_day t) < 100"
    unfolding dt_year_def dt_month_def dt_day_def by linarith+
  have "length (str_nat (nat (dt_year t))) \<le> 4"
    using b(1) by (simp add: length_str_nat_lt_10000)
  then have l: "length (zpad 4 (nat (dt_year t))) = 4" "length (zpad 2 (nat (dt_month t))) = 2"
    "length (zpad 2 (nat (dt_day t))) = 2"
    using b by (simp_all add: length_zpad length_str_nat_lt_100)
  then show ?thesis
    by (simp add: date_isoformat_def nth_append)
qed



lemma length_str_nat_lt_1000000: "n < 1000000 \<Longrightarrow> length (str_nat n) \<le> 6"
proof -
  assume n: "n < 1000000"
  then have "n div 100 < 10000"
    by simp
  then have l: "length (str_nat (n div 100)) \<le> 4"
    by (rule length_str_nat_lt_10000)
  have "length (str_nat (n div 10)) \<le> 5"
    using l by (subst str_nat.simps) (simp add: div_mult2_eq[symmetric])
  then show ?thesis
    by (subst str_nat.simps) simp
qed

lemma isoformat_shape:
  assumes "datetime_valid t"
  shows "length (isoformat t) = (if dt_microsecond t = 0 then 19 else 26)
       \<and> isoformat t ! 4 = CHR ''-'' \<and> isoformat t ! 7 = CHR ''-''
       \<and> isoformat t ! 10 = CHR ''T''
       \<and> isoformat t ! 13 = CHR '':'' \<and> isoformat t ! 16 = CHR '':''"
proof -
  have us: "0 \<le> dt_microsecond t" "dt_microsecond t < 1000000"
    by (simp_all add: dt_microsecond_def)
  then have "nat (dt_microsecond t) < 1000000"
    by linarith
  then have "length (zpad 6 (nat (dt_microsecond t))) = 6"
    by (simp add: length_zpad length_str_nat_lt_1000000)
  with date_isoformat_shape[OF assms] strftime_HMS_shape[of t] show ?thesis
    by (simp add: isoformat_def isoformat_sep_def nth_append)
qed

subsection \<open>Queries\<close>

lemma matches_cond_Gte_iff:
  "matches_cond (Gte c) f \<longleftrightarrow>
     (\<exists>t. f = Some (BDate t) \<and> datetime_to_millis c \<le> datetime_to_millis t)"
proof (cases f)
  case None
  then show ?thesis by simp
next
  case (Some v)
  then show ?thesis by (cases v) simp_all
qed

lemma matches_active_since_iff:
  "matches (active_since c) doc \<longleftrightarrow>
     map_of doc ''is_group'' = Some (BBool False)
     \<and> (\<exists>t. map_of doc ''last_activity'' = Some (BDate t)
            \<and> datetime_to_millis c \<le> datetime_to_millis t)"
  by (simp add: matches_def active_since_def matches_cond_Gte_iff)

lemma matches_is_group_iff:
  "matches [(''is_group'', Eq (BBool b))] doc \<longleftrightarrow> map_of doc ''is_group'' = Some (BBool b)"
  by (simp add: matches_def)

lemma active_since_mono:
  assumes "c' \<le> c" and "matches (active_since c) doc"
  shows "matches (active_since c') doc"
proof -
  have "datetime_to_millis c' \<le> datetime_to_millis c"
    using assms(1) by (simp add: datetime_to_millis_def zdiv_mono1)
  with assms(2) show ?thesis
    by (auto simp: matches_active_since_iff)
qed

lemma count_active_since_mono:
  "c' \<le> c \<Longrightarrow>
     length (filter (matches (active_since c)) docs)
       \<le> length (filter (matches (active_since c')) docs)"
  by (induction docs) (auto dest: active_since_mono)

lemma datetime_sub_Inr: "datetime_sub t d = Inr c \<Longrightarrow> c = t - d"
  by (auto simp: datetime_sub_def Let_def split: if_splits)

subsection \<open>\<open>get_stats\<close>\<close>

lemma get_stats_try_Inr:
  assumes "get_stats_try w = (Inr resp, w')"
  shows "\<exists>c1 c7 c30 c365 d0 d1 d2 d3 d4 d5.
     datetime_sub (now_at w (ticks w)) (timedelta_days 1) = Inr c1
   \<and> datetime_sub (now_at w (ticks w)) (timedelta_weeks 1) = Inr c7
   \<and> datetime_sub (now_at w (ticks w)) (timedelta_days 30) = Inr c30
   \<and> datetime_sub (now_at w (ticks w)) (timedelta_days 365) = Inr c365
   \<and> db_at w (calls w) user_activity_collection = Inr d0
   \<and> db_at w (calls w + 1) user_activity_collection = Inr d1
   \<and> db_at w (calls w + 2) user_activity_collection = Inr d2
   \<and> db_at w (calls w + 3) user_activity_collection = Inr d3
   \<and> db_at w (calls w + 4) user_activity_collection = Inr d4
   \<and> db_at w (calls w + 5) user_activity_collection = Inr d5
   \<and> resp = PDict
       [api_owner,
        api_dev,
        (''stats'', PDict
          [(''daily_users'', PAtom (BInt (int (length (filter (matches (active_since c1)) d0))))),
           (''weekly_users'', PAtom (BInt (int (length (filter (matches (active_since c7)) d1))))),
           (''monthly_users'', PAtom (BInt (int (length (filter (matches (active_since c30)) d2))))),
           (''yearly_users'', PAtom (BInt (int (length (filter (matches (active_since c365)) d3))))),
           (''total_users'', PAtom (BInt (int (length
               (filter (matches [(''is_group'', Eq (BBool False))]) d4))))),
           (''total_groups'', PAtom (BInt (int (length
               (filter (matches [(''is_group'', Eq (BBool True))]) d5)))))]),
        (''timestamp'', PAtom (BStr (isoformat (now_at w (ticks w)))))]
   \<and> w' = w\<lparr>ticks := Suc (ticks w), calls := calls w + 6\<rparr>"
  using assms unfolding get_stats_try_def
  by (auto simp: bnd_Inr_iff count_documents_Inr_iff numeral_eq_Suc)

text \<open>
  What a successful stats response holds: each windowed counter counts, among the
  documents its own query read, those matching the window's filter with the cutoff
  computed from the first clock reading.
\<close>

lemma get_stats_windows:
  assumes "get_stats w = (Inr resp, w')"
  shows "\<exists>d0 d1 d2 d3.
     db_at w (calls w) user_activity_collection = Inr d0
   \<and> db_at w (calls w + 1) user_activity_collection = Inr d1
   \<and> db_at w (calls w + 2) user_activity_collection = Inr d2
   \<and> db_at w (calls w + 3) user_activity_collection = Inr d3
   \<and> stat resp ''daily_users'' = Some (int (length (filter
        (matches (active_since (now_at w (ticks w) - timedelta_days 1))) d0)))
   \<and> stat resp ''weekly_users'' = Some (int (length (filter
        (matches (active_since (now_at w (ticks w) - timedelta_weeks 1))) d1)))
   \<and> stat resp ''monthly_users'' = Some (int (length (filter
        (matches (active_since (now_at w (ticks w) - timedelta_days 30))) d2)))
   \<and> stat resp ''yearly_users'' = Some (int (length (filter
        (matches (active_since (now_at w (ticks w) - timedelta_days 365))) d3)))
   \<and> field resp ''timestamp'' = Some (PAtom (BStr (isoformat (now_at w (ticks w)))))"
proof -
  from assms have "get_stats_try w = (Inr resp, w')"
    by (simp add: get_stats_def)
  from get_stats_try_Inr[OF this] show ?thesis
    by (auto dest!: datetime_sub_Inr simp: stat_def api_owner_def api_dev_def)
qed

lemma get_stats_totals:
  assumes "get_stats w = (Inr resp, w')"
  shows "\<exists>d4 d5.
     db_at w (calls w + 4) user_activity_collection = Inr d4
   \<and> db_at w (calls w + 5) user_activity_collection = Inr d5
   \<and> stat resp ''total_users'' = Some (int (length (filter
        (matches [(''is_group'', Eq (BBool False))]) d4)))
   \<and> stat resp ''total_groups'' = Some (int (length (filter
        (matches [(''is_group'', Eq (BBool True))]) d5)))"
proof -
  from assms have "get_stats_try w = (Inr resp, w')"
    by (simp add: get_stats_def)
  from get_stats_try_Inr[OF this] show ?thesis
    by (auto simp: stat_def api_owner_def api_dev_def)
qed

lemma get_stats_ticks: "ticks (snd (get_stats w)) = Suc (ticks w)"
  unfolding get_stats_def get_stats_try_def
  by (simp add: bnd_def except_Exception_def raise_def lift_def count_documents_def utcnow_def
        ret_def split: sum.splits prod.splits)

lemma get_stats_indep:
  assumes "now_at w2 (ticks w2) = now_at w (ticks w)" "db_at w2 = db_at w" "calls w2 = calls w"
  shows "fst (get_stats w2) = fst (get_stats w)"
  using assms
  unfolding get_stats_def get_stats_try_def
  by (simp add: bnd_def except_Exception_def raise_def lift_def count_documents_def utcnow_def
        ret_def split: sum.splits prod.splits)

lemma get_stats_example: "fst (get_stats world_example) = Inr stats_example"
  by code_simp

lemma world_example_reads:
  "now_at world_example k = mk_datetime 2024 3 15 10 30 0 0 + int k * 1000000"
  "ticks world_example = 0"
  "calls world_example = 0"
  "db_at world_example k user_activity_collection = Inr activity_example"
  "db_at world_example k auth_admins = Inr admins_example"
  "db_at world_example k banned_users = Inr banned_example"
  by (simp_all add: world_example_def)

text \<open>
  C2. Every request to \<open>GET /api/stats\<close> reads the clock exactly once. The response is
  determined by that reading and by what the queries find: a world that agrees on them
  gives the same response, whatever its later clock readings are. In a successful
  response the four windowed counters count the documents matching the window's filter
  with cutoffs that reading minus 1 day, 1 week, 30 days and 365 days, and the
  \<open>timestamp\<close> is the ISO-8601 rendering of that reading.
\<close>

theorem get_stats_single_now:
  "ticks (snd (get_stats w)) = Suc (ticks w)
   \<and> (\<forall>w2::world.
         now_at w2 (ticks w2) = now_at w (ticks w) \<and> db_at w2 = db_at w \<and> calls w2 = calls w
         \<longrightarrow> fst (get_stats w2) = fst (get_stats w))
   \<and> (\<forall>resp. fst (get_stats w) = Inr resp \<longrightarrow>
         (\<exists>d0 d1 d2 d3.
             db_at w (calls w) user_activity_collection = Inr d0
           \<and> db_at w (calls w + 1) user_activity_collection = Inr d1
           \<and> db_at w (calls w + 2) user_activity_collection = Inr d2
           \<and> db_at w (calls w + 3) user_activity_collection = Inr d3
           \<and> stat resp ''daily_users'' = Some (int (length (filter
                (matches (active_since (now_at w (ticks w) - timedelta_days 1))) d0)))
           \<and> stat resp ''weekly_users'' = Some (int (length (filter
                (matches (active_since (now_at w (ticks w) - timedelta_weeks 1))) d1)))
           \<and> stat resp ''monthly_users'' = Some (int (length (filter
                (matches (active_since (now_at w (ticks w) - timedelta_days 30))) d2)))
           \<and> stat resp ''yearly_users'' = Some (int (length (filter
                (matches (active_since (now_at w (ticks w) - timedelta_days 365))) d3)))
           \<and> field resp ''timestamp'' = Some (PAtom (BStr (isoformat (now_at w (ticks w)))))))"
proof -
  have one: "ticks (snd (get_stats w)) = Suc (ticks w)"
    by (rule get_stats_ticks)
  have indep: "\<forall>w2::world.
         now_at w2 (ticks w2) = now_at w (ticks w) \<and> db_at w2 = db_at w \<and> calls w2 = calls w
         \<longrightarrow> fst (get_stats w2) = fst (get_stats w)"
    using get_stats_indep by blast
  have resp: "\<exists>d0 d1 d2 d3.
             db_at w (calls w) user_activity_collection = Inr d0
           \<and> db_at w (calls w + 1) user_activity_collection = Inr d1
           \<and> db_at w (calls w + 2) user_activity_collection = Inr d2
           \<and> db_at w (calls w + 3) user_activity_collection = Inr d3
           \<and> stat resp ''daily_users'' = Some (int (length (filter
                (matches (active_since (now_at w (ticks w) - timedelta_days 1))) d0)))
           \<and> stat resp ''weekly_users'' = Some (int (length (filter
                (matches (active_since (now_at w (ticks w) - timedelta_weeks 1))) d1)))
           \<and> stat resp ''monthly_users'' = Some (int (length (filter
                (matches (active_since (now_at w (ticks w) - timedelta_days 30))) d2)))
           \<and> stat resp ''yearly_users'' = Some (int (length (filter
                (matches (active_since (now_at w (ticks w) - timedelta_days 365))) d3)))
           \<and> field resp ''timestamp'' = Some (PAtom (BStr (isoformat (now_at w (ticks w)))))"
    if "fst (get_stats w) = Inr resp" for resp
  proof -
    from that have ok: "get_stats w = (Inr resp, snd (get_stats w))"
      by (simp add: prod_eq_iff)
    show ?thesis by (rule get_stats_windows[OF ok])
  qed
  from one indep resp show ?thesis by blast
qed

theorem get_stats_single_now_witness:
  "fst (get_stats world_example) = Inr stats_example
   \<and> ticks (snd (get_stats world_example)) = 1
   \<and> fst (get_stats (world_example\<lparr>now_at := (\<lambda>k. if k = 0 then now_at world_example 0 else 0)\<rparr>))
       = Inr stats_example
   \<and> stat stats_example ''daily_users'' = Some (int (length (filter
        (matches (active_since (mk_datetime 2024 3 15 10 30 0 0 - timedelta_days 1)))
        activity_example)))
   \<and> field stats_example ''timestamp''
       = Some (PAtom (BStr (isoformat (mk_datetime 2024 3 15 10 30 0 0))))"
proof -
  have ex: "fst (get_stats world_example) = Inr stats_example"
    by (rule get_stats_example)
  have agree: "now_at (world_example\<lparr>now_at := (\<lambda>k. if k = 0 then now_at world_example 0 else 0)\<rparr>)
          (ticks (world_example\<lparr>now_at := (\<lambda>k. if k = 0 then now_at world_example 0 else 0)\<rparr>))
        = now_at world_example (ticks world_example)
      \<and> db_at (world_example\<lparr>now_at := (\<lambda>k. if k = 0 then now_at world_example 0 else 0)\<rparr>)
        = db_at world_example
      \<and> calls (world_example\<lparr>now_at := (\<lambda>k. if k = 0 then now_at world_example 0 else 0)\<rparr>)
        = calls world_example"
    by (simp add: world_example_reads)
  note inst = get_stats_single_now[of world_example]
  from inst have "ticks (snd (get_stats world_example)) = 1"
    by (simp add: world_example_reads)
  moreover from inst agree ex
  have "fst (get_stats (world_example\<lparr>now_at := (\<lambda>k. if k = 0 then now_at world_example 0 else 0)\<rparr>))
       = Inr stats_example"
    by metis
  moreover from inst ex
  have "stat stats_example ''daily_users'' = Some (int (length (filter
        (matches (active_since (mk_datetime 2024 3 15 10 30 0 0 - timedelta_days 1)))
        activity_example)))
      \<and> field stats_example ''timestamp''
       = Some (PAtom (BStr (isoformat (mk_datetime 2024 3 15 10 30 0 0))))"
    by (auto simp: world_example_reads)
  ultimately show ?thesis using ex by simp
qed

text \<open>
  C5. When the four windowed queries of a request read the same documents, the
  counters of a successful stats response are nested:
  \<open>daily_users \<le> weekly_users \<le> monthly_users \<le> yearly_users\<close>.
\<close>

theorem stats_windows_nested:
  assumes ok: "get_stats w = (Inr resp, w')"
    and snapshot: "\<forall>k<4. db_at w (calls w + k) user_activity_collection = Inr docs"
  shows "\<exists>daily weekly monthly yearly.
           stat resp ''daily_users'' = Some daily
         \<and> stat resp ''weekly_users'' = Some weekly
         \<and> stat resp ''monthly_users'' = Some monthly
         \<and> stat resp ''yearly_users'' = Some yearly
         \<and> daily \<le> weekly \<and> weekly \<le> monthly \<and> monthly \<le> yearly"
proof -
  define now where "now = now_at w (ticks w)"
  from get_stats_windows[OF ok] obtain d0 d1 d2 d3 where
    d: "db_at w (calls w) user_activity_collection = Inr d0"
       "db_at w (calls w + 1) user_activity_collection = Inr d1"
       "db_at w (calls w + 2) user_activity_collection = Inr d2"
       "db_at w (calls w + 3) user_activity_collection = Inr d3"
    and s: "stat resp ''daily_users'' = Some (int (length (filter
              (matches (active_since (now - timedelta_days 1))) d0)))"
       "stat resp ''weekly_users'' = Some (int (length (filter
              (matches (active_since (now - timedelta_weeks 1))) d1)))"
       "stat resp ''monthly_users'' = Some (int (length (filter
              (matches (active_since (now - timedelta_days 30))) d2)))"
       "stat resp ''yearly_users'' = Some (int (length (filter
              (matches (active_since (now - timedelta_days 365))) d3)))"
    unfolding now_def by blast
  have same: "d0 = docs" "d1 = docs" "d2 = docs" "d3 = docs"
    using d snapshot[rule_format, of 0] snapshot[rule_format, of 1]
      snapshot[rule_format, of 2] snapshot[rule_format, of 3]
    by simp_all
  have le: "now - timedelta_weeks 1 \<le> now - timedelta_days 1"
           "now - timedelta_days 30 \<le> now - timedelta_weeks 1"
           "now - timedelta_days 365 \<le> now - timedelta_days 30"
    by (simp_all add: timedelta_days_def timedelta_weeks_def US_PER_DAY_def)
  show ?thesis
    using s le by (simp add: same count_active_since_mono)
qed

theorem stats_windows_nested_witness:
  "get_stats world_example = (Inr stats_example, snd (get_stats world_example))
   \<and> db_at world_example (calls world_example) user_activity_collection = Inr activity_example
   \<and> db_at world_example (calls world_example + 1) user_activity_collection = Inr activity_example
   \<and> db_at world_example (calls world_example + 2) user_activity_collection = Inr activity_example
   \<and> db_at world_example (calls world_example + 3) user_activity_collection = Inr activity_example
   \<and> stat stats_example ''daily_users'' = Some 1
   \<and> stat stats_example ''weekly_users'' = Some 2
   \<and> stat stats_example ''monthly_users'' = Some 3
   \<and> stat stats_example ''yearly_users'' = Some 4"
proof -
  have ok: "get_stats world_example = (Inr stats_example, snd (get_stats world_example))"
    using get_stats_example by (simp add: prod_eq_iff)
  have snapshot: "\<forall>k<4. db_at world_example (calls world_example + k) user_activity_collection
                = Inr activity_example"
    by (simp add: world_example_reads)
  from stats_windows_nested[OF ok snapshot] ok show ?thesis
    by (simp add: stat_def stats_example_def world_example_reads)
qed

text \<open>
  C6. When the two unconditional counts of a request read the same documents and every
  one of them holds a boolean \<open>is_group\<close>, a successful stats response has
  \<open>total_users + total_groups\<close> equal to the number of documents.
\<close>

theorem stats_totals_partition:
  assumes ok: "get_stats w = (Inr resp, w')"
    and users: "db_at w (calls w + 4) user_activity_collection = Inr docs"
    and groups: "db_at w (calls w + 5) user_activity_collection = Inr docs"
    and bool: "\<forall>doc\<in>set docs. \<exists>b. map_of doc ''is_group'' = Some (BBool b)"
  shows "\<exists>total_users total_groups.
           stat resp ''total_users'' = Some total_users
         \<and> stat resp ''total_groups'' = Some total_groups
         \<and> total_users + total_groups = int (length docs)"
proof -
  from get_stats_totals[OF ok] obtain d4 d5 where
    d: "db_at w (calls w + 4) user_activity_collection = Inr d4"
       "db_at w (calls w + 5) user_activity_collection = Inr d5"
    and u: "stat resp ''total_users'' = Some (int (length (filter
             (matches [(''is_group'', Eq (BBool False))]) d4)))"
    and g: "stat resp ''total_groups'' = Some (int (length (filter
             (matches [(''is_group'', Eq (BBool True))]) d5)))"
    by blast
  have same: "d4 = docs" "d5 = docs"
    using d users groups by simp_all
  have "matches [(''is_group'', Eq (BBool True))] doc
          \<longleftrightarrow> \<not> matches [(''is_group'', Eq (BBool False))] doc" if "doc \<in> set docs" for doc
    using bool that by (auto simp: matches_is_group_iff)
  then have "filter (matches [(''is_group'', Eq (BBool True))]) docs
          = filter (\<lambda>doc. \<not> matches [(''is_group'', Eq (BBool False))] doc) docs"
    by (rule filter_cong[OF refl])
  then have "length (filter (matches [(''is_group'', Eq (BBool False))]) docs)
           + length (filter (matches [(''is_group'', Eq (BBool True))]) docs) = length docs"
    by (simp only: sum_length_filter_compl)
  then have "int (length (filter (matches [(''is_group'', Eq (BBool False))]) docs))
           + int (length (filter (matches [(''is_group'', Eq (BBool True))]) docs))
           = int (length docs)"
    by linarith
  with u g show ?thesis
    unfolding same by simp
qed

theorem stats_totals_partition_witness:
  "get_stats world_example = (Inr stats_example, snd (get_stats world_example))
   \<and> db_at world_example (calls world_example + 4) user_activity_collection = Inr activity_example
   \<and> db_at world_example (calls world_example + 5) user_activity_collection = Inr activity_example
   \<and> map (\<lambda>doc. map_of doc ''is_group'') activity_example
       = [Some (BBool False), Some (BBool False), Some (BBool False), Some (BBool False),
          Some (BBool False), Some (BBool True)]
   \<and> stat stats_example ''total_users'' = Some 5
   \<and> stat stats_example ''total_groups'' = Some 1
   \<and> (5::int) + 1 = int (length activity_example)"
proof -
  have ok: "get_stats world_example = (Inr stats_example, snd (get_stats world_example))"
    using get_stats_example by (simp add: prod_eq_iff)
  have users: "db_at world_example (calls world_example + 4) user_activity_collection
                 = Inr activity_example"
    and groups: "db_at world_example (calls world_example + 5) user_activity_collection
                 = Inr activity_example"
    by (simp_all add: world_example_reads)
  have flags: "map (\<lambda>doc. map_of doc ''is_group'') activity_example
       = [Some (BBool False), Some (BBool False), Some (BBool False), Some (BBool False),
          Some (BBool False), Some (BBool True)]"
    by (simp add: activity_example_def)
  have bool: "\<forall>doc\<in>set activity_example. \<exists>b. map_of doc ''is_group'' = Some (BBool b)"
    by (auto simp: activity_example_def)
  have len: "(5::int) + 1 = int (length activity_example)"
    by (simp add: activity_example_def)
  from stats_totals_partition[OF ok users groups bool] ok users groups flags len show ?thesis
    by (simp add: stat_def stats_example_def)
qed

subsection \<open>\<open>get_banlist\<close>\<close>

lemma matches_empty [simp]: "matches [] doc"
  by (simp add: matches_def)

lemma find_Inr_iff:
  "find c q proj w = (Inr xs, w') \<longleftrightarrow>
     (\<exists>docs. db_at w (calls w) c = Inr docs
        \<and> xs = map (case proj of None \<Rightarrow> id | Some ks \<Rightarrow> project ks) (filter (matches q) docs))
     \<and> w' = w\<lparr>calls := Suc (calls w)\<rparr>"
  by (auto simp: find_def split: sum.splits)

lemma item_Inr_iff [simp]: "item d k w = (Inr v, w') \<longleftrightarrow> map_of d k = Some v \<and> w' = w"
  by (auto simp: item_def raise_def split: option.splits)

lemma banned_entry_Inr_iff:
  "banned_entry user w = (Inr e, w') \<longleftrightarrow>
     (\<exists>uid. map_of user ''user_id'' = Some uid
        \<and> e = PDict
            [(''user_id'', PAtom uid),
             (''full_name'', PAtom (dict_get user ''username'' (BStr (py_str uid)))),
             (''reason'', PAtom (dict_get user ''reason'' (BStr ''Undefined''))),
             (''ban_date'', PAtom (dict_get user ''ban_date'' (BStr ''Undefined'')))])
     \<and> w' = w"
  by (auto simp: banned_entry_def bnd_Inr_iff)

lemma mapM_banned_entry:
  "mapM banned_entry users w = (Inr es, w') \<Longrightarrow>
     w' = w \<and> list_all2 (\<lambda>user e. banned_entry user w = (Inr e, w)) users es"
proof (induction users arbitrary: es w')
  case Nil
  then show ?case by simp
next
  case (Cons user users)
  from Cons.prems obtain e es' w1 w2 where
    e: "banned_entry user w = (Inr e, w1)"
    and rest: "mapM banned_entry users w1 = (Inr es', w2)"
    and es: "es = e # es'" "w' = w2"
    by (auto simp: bnd_Inr_iff)
  from e have w1: "w1 = w" by (simp add: banned_entry_Inr_iff)
  from Cons.IH[of es' w2] rest w1 have "w2 = w"
    and "list_all2 (\<lambda>user e. banned_entry user w = (Inr e, w)) users es'"
    by simp_all
  with e es w1 show ?case by simp
qed

lemma get_banlist_Inr:
  assumes "get_banlist w = (Inr resp, w')"
  shows "\<exists>docs es.
     db_at w (calls w) banned_users = Inr docs
   \<and> list_all2 (\<lambda>user e. \<exists>w1. banned_entry user w1 = (Inr e, w1)) docs es
   \<and> resp = PDict
       [api_owner,
        api_dev,
        (''banned_users'', PList es),
        (''total_banned'', PAtom (BInt (int (length docs)))),
        (''timestamp'', PAtom (BStr (isoformat (now_at w (ticks w)))))]"
proof -
  from assms have body: "get_banlist_try w = (Inr resp, w')"
    by (simp add: get_banlist_def)
  then obtain banned_list w1 where
    f: "find banned_users [] None w = (Inr banned_list, w1)"
    and rest: "(if banned_list = []
     then bnd utcnow (\<lambda>t.
          ret (PDict
            [api_owner,
             api_dev,
             (''banned_users'', PList []),
             (''total_banned'', PAtom (BInt 0)),
             (''timestamp'', PAtom (BStr (isoformat t)))]))
     else bnd (mapM banned_entry banned_list) (\<lambda>entries.
          bnd utcnow (\<lambda>t.
          ret (PDict
            [api_owner,
             api_dev,
             (''banned_users'', PList entries),
             (''total_banned'', PAtom (BInt (int (length banned_list)))),
             (''timestamp'', PAtom (BStr (isoformat t)))])))) w1 = (Inr resp, w')"
    unfolding get_banlist_try_def by (auto simp: bnd_Inr_iff)
  from f have db: "db_at w (calls w) banned_users = Inr banned_list"
    and w1: "w1 = w\<lparr>calls := Suc (calls w)\<rparr>"
    by (auto simp: find_Inr_iff)
  show ?thesis
  proof (cases "banned_list = []")
    case True
    with rest w1 have "resp = PDict
       [api_owner,
        api_dev,
        (''banned_users'', PList []),
        (''total_banned'', PAtom (BInt (int (length banned_list)))),
        (''timestamp'', PAtom (BStr (isoformat (now_at w (ticks w)))))]"
      by (auto simp: bnd_Inr_iff)
    with db True show ?thesis by auto
  next
    case False
    with rest obtain es w2 where
      m: "mapM banned_entry banned_list w1 = (Inr es, w2)"
      and r: "bnd utcnow (\<lambda>t.
          ret (PDict
            [api_owner,
             api_dev,
             (''banned_users'', PList es),
             (''total_banned'', PAtom (BInt (int (length banned_list)))),
             (''timestamp'', PAtom (BStr (isoformat t)))])) w2 = (Inr resp, w')"
      by (auto simp: bnd_Inr_iff)
    from mapM_banned_entry[OF m] have w2: "w2 = w1"
      and all2: "list_all2 (\<lambda>user e. banned_entry user w1 = (Inr e, w1)) banned_list es"
      by simp_all
    from all2 have "list_all2 (\<lambda>user e. \<exists>w1. banned_entry user w1 = (Inr e, w1)) banned_list es"
      by (rule list_all2_mono) blast
    moreover from r w2 w1 have "resp = PDict
       [api_owner,
        api_dev,
        (''banned_users'', PList es),
        (''total_banned'', PAtom (BInt (int (length banned_list)))),
        (''timestamp'', PAtom (BStr (isoformat (now_at w (ticks w)))))]"
      by (auto simp: bnd_Inr_iff)
    ultimately show ?thesis using db by blast
  qed
qed

lemma get_banlist_example: "fst (get_banlist world_example) = Inr banlist_example"
  by code_simp

lemma world_empty_reads:
  "now_at world_empty k = mk_datetime 2024 3 15 10 30 0 0 + int k * 1000000"
  "ticks world_empty = 0"
  "calls world_empty = 0"
  "db_at world_empty k c = Inr []"
  by (simp_all add: world_empty_def world_example_def)

text \<open>
  C7. When the banned-users collection is empty, \<open>GET /api/banlist\<close> succeeds, with
  \<open>banned_users\<close> the empty list and \<open>total_banned\<close> 0.
\<close>

theorem banlist_empty:
  assumes "db_at w (calls w) banned_users = Inr []"
  shows "fst (get_banlist w) = Inr (PDict
       [(''api_owner'', PAtom (BStr ''@ISmartCoder'')),
        (''api_dev'', PAtom (BStr ''@TheSmartDev'')),
        (''banned_users'', PList []),
        (''total_banned'', PAtom (BInt 0)),
        (''timestamp'', PAtom (BStr (isoformat (now_at w (ticks w)))))])"
  using assms
  by (simp add: get_banlist_def get_banlist_try_def except_Exception_def bnd_def find_def
        utcnow_def ret_def api_owner_def api_dev_def)

theorem banlist_empty_witness:
  "db_at world_empty (calls world_empty) banned_users = Inr []
   \<and> fst (get_banlist world_empty) = Inr (PDict
       [(''api_owner'', PAtom (BStr ''@ISmartCoder'')),
        (''api_dev'', PAtom (BStr ''@TheSmartDev'')),
        (''banned_users'', PList []),
        (''total_banned'', PAtom (BInt 0)),
        (''timestamp'', PAtom (BStr (isoformat (mk_datetime 2024 3 15 10 30 0 0))))])"
proof -
  have h: "db_at world_empty (calls world_empty) banned_users = Inr []"
    by (simp add: world_empty_reads)
  from banlist_empty[OF h] h show ?thesis
    by (simp add: world_empty_reads)
qed

text \<open>
  C8. In a successful banlist response the entries follow the fetched records one to
  one. The entry of a record carries the record's \<open>user_id\<close>; its \<open>full_name\<close> is the
  record's \<open>username\<close>, or the stringified \<open>user_id\<close> when the record has no
  \<open>username\<close>; \<open>reason\<close> and \<open>ban_date\<close> are the record's, or the string
  \<open>Undefined\<close> when the record lacks them.
\<close>

theorem banlist_entry_fields:
  assumes ok: "get_banlist w = (Inr resp, w')"
    and db: "db_at w (calls w) banned_users = Inr docs"
    and i: "i < length docs"
  shows "\<exists>es uid.
     field resp ''banned_users'' = Some (PList es)
   \<and> length es = length docs
   \<and> map_of (docs ! i) ''user_id'' = Some uid
   \<and> field (es ! i) ''user_id'' = Some (PAtom uid)
   \<and> field (es ! i) ''full_name'' = Some (PAtom
        (case map_of (docs ! i) ''username'' of Some name \<Rightarrow> name | None \<Rightarrow> BStr (py_str uid)))
   \<and> field (es ! i) ''reason'' = Some (PAtom
        (case map_of (docs ! i) ''reason'' of Some r \<Rightarrow> r | None \<Rightarrow> BStr ''Undefined''))
   \<and> field (es ! i) ''ban_date'' = Some (PAtom
        (case map_of (docs ! i) ''ban_date'' of Some d \<Rightarrow> d | None \<Rightarrow> BStr ''Undefined''))"
proof -
  from get_banlist_Inr[OF ok] db obtain es where
    all2: "list_all2 (\<lambda>user e. \<exists>w1. banned_entry user w1 = (Inr e, w1)) docs es"
    and resp: "field resp ''banned_users'' = Some (PList es)"
    by (auto simp: api_owner_def api_dev_def)
  from all2 have len: "length es = length docs"
    by (simp add: list_all2_lengthD)
  from all2 i obtain w1 where "banned_entry (docs ! i) w1 = (Inr (es ! i), w1)"
    by (auto dest: list_all2_nthD)
  then obtain uid where uid: "map_of (docs ! i) ''user_id'' = Some uid"
    and e: "es ! i = PDict
            [(''user_id'', PAtom uid),
             (''full_name'', PAtom (dict_get (docs ! i) ''username'' (BStr (py_str uid)))),
             (''reason'', PAtom (dict_get (docs ! i) ''reason'' (BStr ''Undefined''))),
             (''ban_date'', PAtom (dict_get (docs ! i) ''ban_date'' (BStr ''Undefined'')))]"
    by (auto simp: banned_entry_Inr_iff)
  have "field (es ! i) ''user_id'' = Some (PAtom uid)"
    "field (es ! i) ''full_name'' = Some (PAtom
        (case map_of (docs ! i) ''username'' of Some name \<Rightarrow> name | None \<Rightarrow> BStr (py_str uid)))"
    "field (es ! i) ''reason'' = Some (PAtom
        (case map_of (docs ! i) ''reason'' of Some r \<Rightarrow> r | None \<Rightarrow> BStr ''Undefined''))"
    "field (es ! i) ''ban_date'' = Some (PAtom
        (case map_of (docs ! i) ''ban_date'' of Some d \<Rightarrow> d | None \<Rightarrow> BStr ''Undefined''))"
    by (simp_all add: e dict_get_def split: option.splits)
  with resp len uid show ?thesis by blast
qed

theorem banlist_entry_fields_witness:
  "get_banlist world_example = (Inr banlist_example, snd (get_banlist world_example))
   \<and> db_at world_example (calls world_example) banned_users = Inr banned_example
   \<and> Suc 0 < length banned_example
   \<and> map_of (banned_example ! 0) ''username'' = Some (BStr ''spammer'')
   \<and> map_of (banned_example ! Suc 0) ''username'' = None
   \<and> map_of (banned_example ! Suc 0) ''reason'' = None
   \<and> map_of (banned_example ! Suc 0) ''ban_date'' = None
   \<and> (\<exists>es. field banlist_example ''banned_users'' = Some (PList es)
         \<and> field (es ! 0) ''full_name'' = Some (PAtom (BStr ''spammer''))
         \<and> field (es ! Suc 0) ''full_name'' = Some (PAtom (BStr (py_str (BInt 22))))
         \<and> field (es ! Suc 0) ''reason'' = Some (PAtom (BStr ''Undefined''))
         \<and> field (es ! Suc 0) ''ban_date'' = Some (PAtom (BStr ''Undefined'')))"
proof -
  have ok: "get_banlist world_example = (Inr banlist_example, snd (get_banlist world_example))"
    using get_banlist_example by (simp add: prod_eq_iff)
  have db: "db_at world_example (calls world_example) banned_users = Inr banned_example"
    by (simp add: world_example_reads)
  have i: "(0::nat) < length banned_example" "Suc 0 < length banned_example"
    by (simp_all add: banned_example_def)
  have look: "map_of (banned_example ! 0) ''user_id'' = Some (BInt 21)"
    "map_of (banned_example ! Suc 0) ''user_id'' = Some (BInt 22)"
    "map_of (banned_example ! 0) ''username'' = Some (BStr ''spammer'')"
    "map_of (banned_example ! Suc 0) ''username'' = None"
    "map_of (banned_example ! Suc 0) ''reason'' = None"
    "map_of (banned_example ! Suc 0) ''ban_date'' = None"
    by (simp_all add: banned_example_def)
  from banlist_entry_fields[OF ok db i(1)] banlist_entry_fields[OF ok db i(2)]
  have "\<exists>es. field banlist_example ''banned_users'' = Some (PList es)
         \<and> field (es ! 0) ''full_name'' = Some (PAtom (BStr ''spammer''))
         \<and> field (es ! Suc 0) ''full_name'' = Some (PAtom (BStr (py_str (BInt 22))))
         \<and> field (es ! Suc 0) ''reason'' = Some (PAtom (BStr ''Undefined''))
         \<and> field (es ! Suc 0) ''ban_date'' = Some (PAtom (BStr ''Undefined''))"
    by (auto simp: look)
  with ok db i look show ?thesis by simp
qed

subsection \<open>\<open>get_adminlist\<close>\<close>

lemma map_of_project: "k \<in> set ks \<Longrightarrow> map_of (project ks doc) k = map_of doc k"
  by (induction doc) (auto simp: project_def)

lemma strftime_Inr_iff [simp]:
  "strftime v fmt w = (Inr s, w') \<longleftrightarrow> (\<exists>t. v = BDate t \<and> s = fmt t) \<and> w' = w"
  by (cases v) (auto simp: strftime_def raise_def)

lemma admin_auth_date_Inr_iff:
  "admin_auth_date admin w = (Inr v, w') \<longleftrightarrow>
     (case map_of admin ''auth_date'' of
        Some (BDate d) \<Rightarrow> v = BStr (strftime_Ymd d) \<and> w' = w\<lparr>ticks := Suc (ticks w)\<rparr>
      | _ \<Rightarrow> v = BStr ''Unknown'' \<and> w' = w)"
proof (cases "map_of admin ''auth_date''")
  case None
  then show ?thesis
    by (auto simp: admin_auth_date_def dict_get_def)
next
  case (Some x)
  then show ?thesis
    by (cases x) (auto simp: admin_auth_date_def dict_get_def bnd_Inr_iff)
qed

lemma admin_auth_time_Inr_iff:
  "admin_auth_time admin w = (Inr v, w') \<longleftrightarrow>
     w' = w\<lparr>ticks := Suc (ticks w)\<rparr>
     \<and> (case map_of admin ''auth_time'' of
          None \<Rightarrow> v = BStr (strftime_HMS (now_at w (ticks w)))
        | Some (BDate t) \<Rightarrow> v = BStr (strftime_HMS t)
        | Some _ \<Rightarrow> False)"
proof (cases "map_of admin ''auth_time''")
  case None
  then show ?thesis
    by (auto simp: admin_auth_time_def dict_get_def bnd_Inr_iff)
next
  case (Some x)
  then show ?thesis
    by (cases x) (auto simp: admin_auth_time_def dict_get_def bnd_Inr_iff)
qed

text \<open>
  What the entry of one admin holds, and which clock readings it took: one for
  \<open>auth_date\<close> when the stored value is a \<open>datetime\<close>, then one for \<open>auth_time\<close>.
\<close>

lemma admin_entry_Inr:
  assumes "admin_entry admin w = (Inr e, w')"
  shows "\<exists>uid title n.
     map_of admin ''user_id'' = Some uid
   \<and> map_of admin ''title'' = Some title
   \<and> n = (if \<exists>d. map_of admin ''auth_date'' = Some (BDate d) then ticks w + 1 else ticks w)
   \<and> w' = w\<lparr>ticks := Suc n\<rparr>
   \<and> e = PDict
       [(''user_id'', PAtom uid),
        (''full_name'', PAtom (dict_get admin ''full_name'' (BStr ''Unknown''))),
        (''title'', PAtom title),
        (''username'', PAtom (dict_get admin ''username'' (BStr ''None''))),
        (''auth_date'', PAtom (BStr
           (case map_of admin ''auth_date'' of
              Some (BDate d) \<Rightarrow> strftime_Ymd d
            | _ \<Rightarrow> ''Unknown''))),
        (''auth_time'', PAtom (BStr
           (case map_of admin ''auth_time'' of
              Some (BDate t) \<Rightarrow> strftime_HMS t
            | _ \<Rightarrow> strftime_HMS (now_at w n)))),
        (''auth_by'', PAtom (dict_get admin ''auth_by'' (BStr ''Unknown'')))]
   \<and> (map_of admin ''auth_time'' = None \<or> (\<exists>t. map_of admin ''auth_time'' = Some (BDate t)))"
proof -
  from assms obtain uid title auth_date auth_time w1 where
    uid: "map_of admin ''user_id'' = Some uid"
    and title: "map_of admin ''title'' = Some title"
    and d: "admin_auth_date admin w = (Inr auth_date, w1)"
    and t: "admin_auth_time admin w1 = (Inr auth_time, w')"
    and e: "e = PDict
       [(''user_id'', PAtom uid),
        (''full_name'', PAtom (dict_get admin ''full_name'' (BStr ''Unknown''))),
        (''title'', PAtom title),
        (''username'', PAtom (dict_get admin ''username'' (BStr ''None''))),
        (''auth_date'', PAtom auth_date),
        (''auth_time'', PAtom auth_time),
        (''auth_by'', PAtom (dict_get admin ''auth_by'' (BStr ''Unknown'')))]"
    unfolding admin_entry_def by (auto simp: bnd_Inr_iff)
  define n where "n = (if \<exists>d. map_of admin ''auth_date'' = Some (BDate d) then ticks w + 1 else ticks w)"
  from d have d': "auth_date = BStr (case map_of admin ''auth_date'' of
              Some (BDate d) \<Rightarrow> strftime_Ymd d
            | _ \<Rightarrow> ''Unknown'')"
    and w1: "ticks w1 = n" "now_at w1 = now_at w" "w1\<lparr>ticks := Suc n\<rparr> = w\<lparr>ticks := Suc n\<rparr>"
    by (auto simp: admin_auth_date_Inr_iff n_def split: option.splits bson.splits)
  from t w1 have t': "auth_time = BStr (case map_of admin ''auth_time'' of
              Some (BDate t) \<Rightarrow> strftime_HMS t
            | _ \<Rightarrow> strftime_HMS (now_at w n))"
    and w': "w' = w\<lparr>ticks := Suc n\<rparr>"
    and present: "map_of admin ''auth_time'' = None \<or> (\<exists>t. map_of admin ''auth_time'' = Some (BDate t))"
    by (auto simp: admin_auth_time_Inr_iff split: option.splits bson.splits)
  from uid title e d' t' w' present n_def show ?thesis
    by blast
qed

lemma mapM_admin_entry:
  assumes "mapM admin_entry admins w = (Inr es, w')"
  shows "now_at w' = now_at w \<and> ticks w \<le> ticks w'
       \<and> list_all2 (\<lambda>admin e. \<exists>w1 w2. admin_entry admin w1 = (Inr e, w2)
            \<and> now_at w1 = now_at w \<and> ticks w \<le> ticks w1 \<and> ticks w2 \<le> ticks w') admins es"
  using assms
proof (induction admins arbitrary: w es w')
  case Nil
  then show ?case by simp
next
  case (Cons admin admins)
  from Cons.prems obtain e es' w1 where
    e: "admin_entry admin w = (Inr e, w1)"
    and rest: "mapM admin_entry admins w1 = (Inr es', w')"
    and es: "es = e # es'"
    by (auto simp: bnd_Inr_iff)
  from admin_entry_Inr[OF e] have w1: "now_at w1 = now_at w" "ticks w \<le> ticks w1"
    by (auto split: if_splits)
  from Cons.IH[OF rest] have w': "now_at w' = now_at w1" "ticks w1 \<le> ticks w'"
    and all2: "list_all2 (\<lambda>admin e. \<exists>wa wb. admin_entry admin wa = (Inr e, wb)
            \<and> now_at wa = now_at w1 \<and> ticks w1 \<le> ticks wa \<and> ticks wb \<le> ticks w') admins es'"
    by simp_all
  from all2 have "list_all2 (\<lambda>admin e. \<exists>wa wb. admin_entry admin wa = (Inr e, wb)
            \<and> now_at wa = now_at w \<and> ticks w \<le> ticks wa \<and> ticks wb \<le> ticks w') admins es'"
  proof (rule list_all2_mono)
    fix a b
    assume "\<exists>wa wb. admin_entry a wa = (Inr b, wb)
            \<and> now_at wa = now_at w1 \<and> ticks w1 \<le> ticks wa \<and> ticks wb \<le> ticks w'"
    then obtain wa wb where "admin_entry a wa = (Inr b, wb)" "now_at wa = now_at w1"
      "ticks w1 \<le> ticks wa" "ticks wb \<le> ticks w'"
      by blast
    with w1 have "admin_entry a wa = (Inr b, wb) \<and> now_at wa = now_at w
        \<and> ticks w \<le> ticks wa \<and> ticks wb \<le> ticks w'"
      by simp
    then show "\<exists>wa wb. admin_entry a wa = (Inr b, wb)
            \<and> now_at wa = now_at w \<and> ticks w \<le> ticks wa \<and> ticks wb \<le> ticks w'"
      by blast
  qed
  moreover from e w1 w' have "\<exists>wa wb. admin_entry admin wa = (Inr e, wb)
            \<and> now_at wa = now_at w \<and> ticks w \<le> ticks wa \<and> ticks wb \<le> ticks w'"
    by (intro exI[of _ w] exI[of _ w1]) simp
  ultimately show ?case
    using es w1 w' by simp
qed

lemma get_adminlist_Inr:
  assumes "get_adminlist w = (Inr resp, w')"
  shows "\<exists>docs es.
     db_at w (calls w) auth_admins = Inr docs
   \<and> list_all2 (\<lambda>doc e. \<exists>w1 w2. admin_entry (project admin_fields doc) w1 = (Inr e, w2)
        \<and> now_at w1 = now_at w \<and> ticks w \<le> ticks w1 \<and> ticks w2 < ticks w') docs es
   \<and> resp = PDict
       [api_owner,
        api_dev,
        (''admins'', PList (owner_entry # es)),
        (''total_admins'', PAtom (BInt (int (length (owner_entry # es))))),
        (''timestamp'', PAtom (BStr (isoformat (now_at w (ticks w' - 1)))))]"
proof -
  from assms have "get_adminlist_try w = (Inr resp, w')"
    by (simp add: get_adminlist_def)
  then obtain admins es w1 w2 where
    f: "find auth_admins [] (Some admin_fields) w = (Inr admins, w1)"
    and m: "mapM admin_entry admins w1 = (Inr es, w2)"
    and w': "w' = w2\<lparr>ticks := Suc (ticks w2)\<rparr>"
    and resp: "resp = PDict
       [api_owner,
        api_dev,
        (''admins'', PList (owner_entry # es)),
        (''total_admins'', PAtom (BInt (int (length (owner_entry # es))))),
        (''timestamp'', PAtom (BStr (isoformat (now_at w2 (ticks w2)))))]"
    unfolding get_adminlist_try_def by (auto simp: bnd_Inr_iff Let_def)
  from f obtain docs where db: "db_at w (calls w) auth_admins = Inr docs"
    and admins: "admins = map (project admin_fields) docs"
    and w1: "w1 = w\<lparr>calls := Suc (calls w)\<rparr>"
    by (auto simp: find_Inr_iff)
  from mapM_admin_entry[OF m] w1 have w2: "now_at w2 = now_at w" "ticks w \<le> ticks w2"
    and all2: "list_all2 (\<lambda>admin e. \<exists>wa wb. admin_entry admin wa = (Inr e, wb)
            \<and> now_at wa = now_at w \<and> ticks w \<le> ticks wa \<and> ticks wb \<le> ticks w2) admins es"
    by simp_all
  from all2 have "list_all2 (\<lambda>admin e. \<exists>wa wb. admin_entry admin wa = (Inr e, wb)
            \<and> now_at wa = now_at w \<and> ticks w \<le> ticks wa \<and> ticks wb < ticks w') admins es"
  proof (rule list_all2_mono)
    fix a b
    assume "\<exists>wa wb. admin_entry a wa = (Inr b, wb)
            \<and> now_at wa = now_at w \<and> ticks w \<le> ticks wa \<and> ticks wb \<le> ticks w2"
    then obtain wa wb where "admin_entry a wa = (Inr b, wb)" "now_at wa = now_at w"
      "ticks w \<le> ticks wa" "ticks wb \<le> ticks w2"
      by blast
    with w' have "admin_entry a wa = (Inr b, wb) \<and> now_at wa = now_at w
        \<and> ticks w \<le> ticks wa \<and> ticks wb < ticks w'"
      by simp
    then show "\<exists>wa wb. admin_entry a wa = (Inr b, wb)
            \<and> now_at wa = now_at w \<and> ticks w \<le> ticks wa \<and> ticks wb < ticks w'"
      by blast
  qed
  then have "list_all2 (\<lambda>doc e. \<exists>w1 w2. admin_entry (project admin_fields doc) w1 = (Inr e, w2)
        \<and> now_at w1 = now_at w \<and> ticks w \<le> ticks w1 \<and> ticks w2 < ticks w') docs es"
    by (simp add: admins list_all2_map1)
  moreover from resp w2 w' have "resp = PDict
       [api_owner,
        api_dev,
        (''admins'', PList (owner_entry # es)),
        (''total_admins'', PAtom (BInt (int (length (owner_entry # es))))),
        (''timestamp'', PAtom (BStr (isoformat (now_at w (ticks w' - 1)))))]"
    by simp
  ultimately show ?thesis using db by blast
qed

lemma get_adminlist_example: "fst (get_adminlist world_example) = Inr adminlist_example"
  by code_simp





lemma admin_fields_lookup:
  "map_of (project admin_fields doc) ''user_id'' = map_of doc ''user_id''"
  "map_of (project admin_fields doc) ''title'' = map_of doc ''title''"
  "map_of (project admin_fields doc) ''auth_date'' = map_of doc ''auth_date''"
  "map_of (project admin_fields doc) ''auth_time'' = map_of doc ''auth_time''"
  by (simp_all add: map_of_project admin_fields_def)

text \<open>
  The entry of the \<open>i\<close>-th fetched admin in a successful adminlist response.
\<close>

lemma get_adminlist_nth:
  assumes ok: "get_adminlist w = (Inr resp, w')"
    and db: "db_at w (calls w) auth_admins = Inr docs"
    and i: "i < length docs"
  shows "\<exists>es n.
     field resp ''admins'' = Some (PList (owner_entry # es))
   \<and> field resp ''total_admins'' = Some (PAtom (BInt (int (length (owner_entry # es)))))
   \<and> length es = length docs
   \<and> ticks w \<le> n \<and> n < ticks w'
   \<and> field (es ! i) ''user_id'' = map_option PAtom (map_of (docs ! i) ''user_id'')
   \<and> field (es ! i) ''auth_date'' = Some (PAtom (BStr
        (case map_of (docs ! i) ''auth_date'' of
           Some (BDate d) \<Rightarrow> strftime_Ymd d
         | _ \<Rightarrow> ''Unknown'')))
   \<and> field (es ! i) ''auth_time'' = Some (PAtom (BStr
        (case map_of (docs ! i) ''auth_time'' of
           Some (BDate t) \<Rightarrow> strftime_HMS t
         | _ \<Rightarrow> strftime_HMS (now_at w n))))"
proof -
  from get_adminlist_Inr[OF ok] db obtain es where
    all2: "list_all2 (\<lambda>doc e. \<exists>w1 w2. admin_entry (project admin_fields doc) w1 = (Inr e, w2)
        \<and> now_at w1 = now_at w \<and> ticks w \<le> ticks w1 \<and> ticks w2 < ticks w') docs es"
    and admins: "field resp ''admins'' = Some (PList (owner_entry # es))"
    and total: "field resp ''total_admins'' = Some (PAtom (BInt (int (length (owner_entry # es)))))"
    by (auto simp: api_owner_def api_dev_def)
  from all2 have len: "length es = length docs"
    by (simp add: list_all2_lengthD)
  from all2 i obtain w1 w2 where
    e: "admin_entry (project admin_fields (docs ! i)) w1 = (Inr (es ! i), w2)"
    and w1: "now_at w1 = now_at w" "ticks w \<le> ticks w1" "ticks w2 < ticks w'"
    by (auto dest: list_all2_nthD)
  from admin_entry_Inr[OF e, unfolded admin_fields_lookup w1(1)] obtain uid title n where
    uid: "map_of (docs ! i) ''user_id'' = Some uid"
    and n_def: "n = (if \<exists>d. map_of (docs ! i) ''auth_date'' = Some (BDate d)
                   then ticks w1 + 1 else ticks w1)"
    and w2: "w2 = w1\<lparr>ticks := Suc n\<rparr>"
    and entry: "es ! i = PDict
       [(''user_id'', PAtom uid),
        (''full_name'', PAtom (dict_get (project admin_fields (docs ! i)) ''full_name''
           (BStr ''Unknown''))),
        (''title'', PAtom title),
        (''username'', PAtom (dict_get (project admin_fields (docs ! i)) ''username''
           (BStr ''None''))),
        (''auth_date'', PAtom (BStr
           (case map_of (docs ! i) ''auth_date'' of
              Some (BDate d) \<Rightarrow> strftime_Ymd d
            | _ \<Rightarrow> ''Unknown''))),
        (''auth_time'', PAtom (BStr
           (case map_of (docs ! i) ''auth_time'' of
              Some (BDate t) \<Rightarrow> strftime_HMS t
            | _ \<Rightarrow> strftime_HMS (now_at w n)))),
        (''auth_by'', PAtom (dict_get (project admin_fields (docs ! i)) ''auth_by''
           (BStr ''Unknown'')))]"
    by (elim exE conjE)
  from n_def have n: "ticks w1 \<le> n"
    by simp
  from n w2 w1 have bounds: "ticks w \<le> n" "n < ticks w'"
    by simp_all
  have "field (es ! i) ''user_id'' = map_option PAtom (map_of (docs ! i) ''user_id'')"
    "field (es ! i) ''auth_date'' = Some (PAtom (BStr
        (case map_of (docs ! i) ''auth_date'' of
           Some (BDate d) \<Rightarrow> strftime_Ymd d
         | _ \<Rightarrow> ''Unknown'')))"
    "field (es ! i) ''auth_time'' = Some (PAtom (BStr
        (case map_of (docs ! i) ''auth_time'' of
           Some (BDate t) \<Rightarrow> strftime_HMS t
         | _ \<Rightarrow> strftime_HMS (now_at w n))))"
    by (simp_all add: entry uid)
  with admins total len bounds show ?thesis
    by blast
qed

















lemma admin_wellformed_project:
  "admin_wellformed (project admin_fields doc) = admin_wellformed doc"
  by (simp add: admin_wellformed_def admin_fields_lookup)

lemma admin_entry_succeeds:
  assumes "admin_wellformed admin"
  shows "\<exists>e w'. admin_entry admin w = (Inr e, w')"
proof -
  from assms obtain uid title where uid: "map_of admin ''user_id'' = Some uid"
    and title: "map_of admin ''title'' = Some title"
    and time: "map_of admin ''auth_time'' = None \<or> (\<exists>t. map_of admin ''auth_time'' = Some (BDate t))"
    by (auto simp: admin_wellformed_def split: option.splits elim: isinstance_datetime.elims)
  obtain d w1 where d: "admin_auth_date admin w = (Inr d, w1)"
    by (cases "map_of admin ''auth_date''"; cases "the (map_of admin ''auth_date'')")
       (auto simp: admin_auth_date_Inr_iff)
  from time obtain t w2 where t: "admin_auth_time admin w1 = (Inr t, w2)"
    by (auto simp: admin_auth_time_Inr_iff)
  from uid title d t show ?thesis
    unfolding admin_entry_def by (auto simp: bnd_Inr_iff)
qed

lemma admin_entry_wellformed:
  assumes "admin_entry admin w = (Inr e, w')"
  shows "admin_wellformed admin"
  using admin_entry_Inr[OF assms] by (auto simp: admin_wellformed_def)

lemma mapM_admin_entry_succeeds:
  assumes "\<forall>admin\<in>set admins. admin_wellformed admin"
  shows "\<exists>es w'. mapM admin_entry admins w = (Inr es, w')"
  using assms
proof (induction admins arbitrary: w)
  case Nil
  then show ?case by simp
next
  case (Cons admin admins)
  from Cons.prems admin_entry_succeeds[of admin w] obtain e w1 where
    e: "admin_entry admin w = (Inr e, w1)"
    by auto
  from Cons.IH[of w1] Cons.prems obtain es w2 where
    "mapM admin_entry admins w1 = (Inr es, w2)"
    by auto
  with e show ?case by (auto simp: bnd_Inr_iff)
qed

lemma get_adminlist_succeeds_iff:
  assumes db: "db_at w (calls w) auth_admins = Inr docs"
  shows "(\<exists>resp. fst (get_adminlist w) = Inr resp) \<longleftrightarrow> (\<forall>doc\<in>set docs. admin_wellformed doc)"
proof
  assume "\<exists>resp. fst (get_adminlist w) = Inr resp"
  then obtain resp where ok: "get_adminlist w = (Inr resp, snd (get_adminlist w))"
    by (auto simp: prod_eq_iff)
  from get_adminlist_Inr[OF ok] db obtain es where
    "list_all2 (\<lambda>doc e. \<exists>w1 w2. admin_entry (project admin_fields doc) w1 = (Inr e, w2)
        \<and> now_at w1 = now_at w \<and> ticks w \<le> ticks w1
        \<and> ticks w2 < ticks (snd (get_adminlist w))) docs es"
    by auto
  then have "list_all2 (\<lambda>doc e. admin_wellformed doc) docs es"
    by (rule list_all2_mono) (auto dest: admin_entry_wellformed simp: admin_wellformed_project)
  then show "\<forall>doc\<in>set docs. admin_wellformed doc"
    by (auto simp: list_all2_conv_all_nth in_set_conv_nth)
next
  assume wf: "\<forall>doc\<in>set docs. admin_wellformed doc"
  define w1 where "w1 = w\<lparr>calls := Suc (calls w)\<rparr>"
  from db have f: "find auth_admins [] (Some admin_fields) w
      = (Inr (map (project admin_fields) docs), w1)"
    by (simp add: find_Inr_iff w1_def)
  from wf have "\<forall>admin\<in>set (map (project admin_fields) docs). admin_wellformed admin"
    by (simp add: admin_wellformed_project)
  from mapM_admin_entry_succeeds[OF this, of w1] obtain es w2 where
    m: "mapM admin_entry (map (project admin_fields) docs) w1 = (Inr es, w2)"
    by blast
  from f m have "\<exists>resp w'. get_adminlist_try w = (Inr resp, w')"
    unfolding get_adminlist_try_def by (simp add: bnd_Inr_iff Let_def)
  then obtain resp w' where "get_adminlist w = (Inr resp, w')"
    by (auto simp: get_adminlist_def)
  then have "fst (get_adminlist w) = Inr resp"
    by simp
  then show "\<exists>resp. fst (get_adminlist w) = Inr resp" ..
qed

lemma get_adminlist_entries:
  assumes ok: "get_adminlist w = (Inr resp, w')"
    and db: "db_at w (calls w) auth_admins = Inr docs"
  shows "\<exists>es.
     field resp ''admins'' = Some (PList (owner_entry # es))
   \<and> list_all2 (\<lambda>doc e. \<exists>w1 w2. admin_entry (project admin_fields doc) w1 = (Inr e, w2)) docs es
   \<and> map (\<lambda>e. field e ''user_id'') es = map (\<lambda>doc. map_option PAtom (map_of doc ''user_id'')) docs"
proof -
  from get_adminlist_Inr[OF ok] db obtain es where
    all2: "list_all2 (\<lambda>doc e. \<exists>w1 w2. admin_entry (project admin_fields doc) w1 = (Inr e, w2)
        \<and> now_at w1 = now_at w \<and> ticks w \<le> ticks w1 \<and> ticks w2 < ticks w') docs es"
    and admins: "field resp ''admins'' = Some (PList (owner_entry # es))"
    by (auto simp: api_owner_def api_dev_def)
  from all2 have shaped:
    "list_all2 (\<lambda>doc e. \<exists>w1 w2. admin_entry (project admin_fields doc) w1 = (Inr e, w2)) docs es"
    by (rule list_all2_mono) blast
  from all2 have len: "length es = length docs"
    by (simp add: list_all2_lengthD)
  have ids: "map (\<lambda>e. field e ''user_id'') es
           = map (\<lambda>doc. map_option PAtom (map_of doc ''user_id'')) docs"
  proof (rule nth_equalityI)
    show "length (map (\<lambda>e. field e ''user_id'') es)
        = length (map (\<lambda>doc. map_option PAtom (map_of doc ''user_id'')) docs)"
      by (simp add: len)
  next
    fix i
    assume "i < length (map (\<lambda>e. field e ''user_id'') es)"
    then have i: "i < length docs" by (simp add: len)
    from get_adminlist_nth[OF ok db i] admins
    have "field (es ! i) ''user_id'' = map_option PAtom (map_of (docs ! i) ''user_id'')"
      by auto
    with i len show "map (\<lambda>e. field e ''user_id'') es ! i
        = map (\<lambda>doc. map_option PAtom (map_of doc ''user_id'')) docs ! i"
      by simp
  qed
  show ?thesis
    by (intro exI[of _ es] conjI) (rule admins shaped ids)+
qed

text \<open>
  C4. When the admin collection can be read, \<open>GET /api/adminlist\<close> succeeds exactly when
  an entry can be built from every record (in particular when the collection is empty).
  In a successful response the \<open>admins\<close> list is the synthetic owner entry followed by
  one entry for every fetched admin record, in storage order: the entries are the dict
  displays of the records, and their \<open>user_id\<close>s are the records' \<open>user_id\<close>s in the
  same order. The owner entry is the constant of the source.
\<close>

theorem adminlist_owner_first:
  assumes db: "db_at w (calls w) auth_admins = Inr docs"
  shows "((\<exists>resp. fst (get_adminlist w) = Inr resp) \<longleftrightarrow> (\<forall>doc\<in>set docs. admin_wellformed doc))
   \<and> (\<forall>resp. fst (get_adminlist w) = Inr resp \<longrightarrow>
        (\<exists>es. field resp ''admins'' = Some (PList (owner_entry # es))
           \<and> list_all2 (\<lambda>doc e. \<exists>w1 w2. admin_entry (project admin_fields doc) w1 = (Inr e, w2))
                docs es
           \<and> map (\<lambda>e. field e ''user_id'') es
               = map (\<lambda>doc. map_option PAtom (map_of doc ''user_id'')) docs))
   \<and> owner_entry = PDict
       [(''user_id'', PAtom (BInt 7666341631)),
        (''full_name'', PAtom (BStr owner_full_name)),
        (''title'', PAtom (BStr ''Owner'')),
        (''username'', PAtom (BStr ''@ISmartCoder'')),
        (''auth_date'', PAtom (BStr ''Infinity'')),
        (''auth_time'', PAtom (BStr ''Infinity'')),
        (''auth_by'', PAtom (BStr ''Abir Arafat Chawdhury''))]"
proof (intro conjI allI impI)
  show "(\<exists>resp. fst (get_adminlist w) = Inr resp) \<longleftrightarrow> (\<forall>doc\<in>set docs. admin_wellformed doc)"
    by (rule get_adminlist_succeeds_iff[OF db])
next
  fix resp
  assume "fst (get_adminlist w) = Inr resp"
  then have ok: "get_adminlist w = (Inr resp, snd (get_adminlist w))"
    by (simp add: prod_eq_iff)
  show "\<exists>es. field resp ''admins'' = Some (PList (owner_entry # es))
           \<and> list_all2 (\<lambda>doc e. \<exists>w1 w2. admin_entry (project admin_fields doc) w1 = (Inr e, w2))
                docs es
           \<and> map (\<lambda>e. field e ''user_id'') es
               = map (\<lambda>doc. map_option PAtom (map_of doc ''user_id'')) docs"
    by (rule get_adminlist_entries[OF ok db])
next
  show "owner_entry = PDict
       [(''user_id'', PAtom (BInt 7666341631)),
        (''full_name'', PAtom (BStr owner_full_name)),
        (''title'', PAtom (BStr ''Owner'')),
        (''username'', PAtom (BStr ''@ISmartCoder'')),
        (''auth_date'', PAtom (BStr ''Infinity'')),
        (''auth_time'', PAtom (BStr ''Infinity'')),
        (''auth_by'', PAtom (BStr ''Abir Arafat Chawdhury''))]"
    by (simp add: owner_entry_def)
qed

theorem adminlist_owner_first_witness:
  "db_at world_example (calls world_example) auth_admins = Inr admins_example
   \<and> map admin_wellformed admins_example = [True, True, True]
   \<and> fst (get_adminlist world_example) = Inr adminlist_example
   \<and> (\<exists>es. field adminlist_example ''admins'' = Some (PList (owner_entry # es))
         \<and> map (\<lambda>e. field e ''user_id'') es
             = [Some (PAtom (BInt 11)), Some (PAtom (BInt 12)), Some (PAtom (BInt 13))])
   \<and> db_at world_empty (calls world_empty) auth_admins = Inr []
   \<and> (\<exists>resp. fst (get_adminlist world_empty) = Inr resp
         \<and> field resp ''admins'' = Some (PList [owner_entry]))"
proof -
  have db: "db_at world_example (calls world_example) auth_admins = Inr admins_example"
    by (simp add: world_example_reads)
  have wf: "map admin_wellformed admins_example = [True, True, True]"
    by (simp add: admins_example_def admin_wellformed_def)
  have ids: "map (\<lambda>doc. map_option PAtom (map_of doc ''user_id'')) admins_example
      = [Some (PAtom (BInt 11)), Some (PAtom (BInt 12)), Some (PAtom (BInt 13))]"
    by (simp add: admins_example_def)
  note full = adminlist_owner_first[OF db]
  from full[THEN conjunct2, THEN conjunct1, rule_format, OF get_adminlist_example]
  have ex: "\<exists>es. field adminlist_example ''admins'' = Some (PList (owner_entry # es))
         \<and> map (\<lambda>e. field e ''user_id'') es
             = [Some (PAtom (BInt 11)), Some (PAtom (BInt 12)), Some (PAtom (BInt 13))]"
    unfolding ids by (elim exE conjE) (rule exI, rule conjI, assumption, assumption)
  have db0: "db_at world_empty (calls world_empty) auth_admins = Inr []"
    by (simp add: world_empty_reads)
  note empty = adminlist_owner_first[OF db0]
  from empty[THEN conjunct1] obtain resp where r: "fst (get_adminlist world_empty) = Inr resp"
    by auto
  from empty[THEN conjunct2, THEN conjunct1, rule_format, OF r]
  have "field resp ''admins'' = Some (PList [owner_entry])"
    by auto
  with r have emp: "\<exists>resp. fst (get_adminlist world_empty) = Inr resp
         \<and> field resp ''admins'' = Some (PList [owner_entry])"
    by blast
  show ?thesis
    by (intro conjI) (rule db wf get_adminlist_example ex db0 emp)+
qed

text \<open>
  C10. In every successful banlist response \<open>total_banned\<close> is the length of the
  \<open>banned_users\<close> list, and in every successful adminlist response \<open>total_admins\<close> is
  the length of the \<open>admins\<close> list, which is the number of fetched admin records plus
  one.
\<close>

theorem totals_are_lengths:
  "(\<forall>resp. fst (get_banlist w) = Inr resp \<longrightarrow>
      (\<exists>es. field resp ''banned_users'' = Some (PList es)
          \<and> field resp ''total_banned'' = Some (PAtom (BInt (int (length es))))))
   \<and> (\<forall>resp. fst (get_adminlist w) = Inr resp \<longrightarrow>
      (\<exists>es docs. db_at w (calls w) auth_admins = Inr docs
          \<and> field resp ''admins'' = Some (PList es)
          \<and> field resp ''total_admins'' = Some (PAtom (BInt (int (length es))))
          \<and> length es = length docs + 1))"
proof -
  have ban: "\<exists>es. field resp ''banned_users'' = Some (PList es)
          \<and> field resp ''total_banned'' = Some (PAtom (BInt (int (length es))))"
    if "fst (get_banlist w) = Inr resp" for resp
  proof -
    from that have ok: "get_banlist w = (Inr resp, snd (get_banlist w))"
      by (simp add: prod_eq_iff)
    from get_banlist_Inr[OF ok] obtain docs es where
      all2: "list_all2 (\<lambda>user e. \<exists>w1. banned_entry user w1 = (Inr e, w1)) docs es"
      and resp: "resp = PDict
       [api_owner,
        api_dev,
        (''banned_users'', PList es),
        (''total_banned'', PAtom (BInt (int (length docs)))),
        (''timestamp'', PAtom (BStr (isoformat (now_at w (ticks w)))))]"
      by blast
    from all2 have "length docs = length es"
      by (rule list_all2_lengthD)
    with resp have "field resp ''banned_users'' = Some (PList es)
          \<and> field resp ''total_banned'' = Some (PAtom (BInt (int (length es))))"
      by (simp add: api_owner_def api_dev_def)
    then show ?thesis by (rule exI)
  qed
  have adm: "\<exists>es docs. db_at w (calls w) auth_admins = Inr docs
          \<and> field resp ''admins'' = Some (PList es)
          \<and> field resp ''total_admins'' = Some (PAtom (BInt (int (length es))))
          \<and> length es = length docs + 1"
    if "fst (get_adminlist w) = Inr resp" for resp
  proof -
    from that have ok: "get_adminlist w = (Inr resp, snd (get_adminlist w))"
      by (simp add: prod_eq_iff)
    from get_adminlist_Inr[OF ok] obtain docs es where
      db: "db_at w (calls w) auth_admins = Inr docs"
      and all2: "list_all2 (\<lambda>doc e. \<exists>w1 w2. admin_entry (project admin_fields doc) w1 = (Inr e, w2)
        \<and> now_at w1 = now_at w \<and> ticks w \<le> ticks w1 \<and> ticks w2 < ticks (snd (get_adminlist w)))
          docs es"
      and resp: "resp = PDict
       [api_owner,
        api_dev,
        (''admins'', PList (owner_entry # es)),
        (''total_admins'', PAtom (BInt (int (length (owner_entry # es))))),
        (''timestamp'', PAtom (BStr (isoformat (now_at w (ticks (snd (get_adminlist w)) - 1)))))]"
      by blast
    from all2 have "length docs = length es"
      by (rule list_all2_lengthD)
    with resp db have "db_at w (calls w) auth_admins = Inr docs
          \<and> field resp ''admins'' = Some (PList (owner_entry # es))
          \<and> field resp ''total_admins'' = Some (PAtom (BInt (int (length (owner_entry # es)))))
          \<and> length (owner_entry # es) = length docs + 1"
      by (simp add: api_owner_def api_dev_def)
    then show ?thesis by (intro exI)
  qed
  from ban adm show ?thesis by (intro conjI allI impI)
qed

theorem totals_are_lengths_witness:
  "fst (get_banlist world_example) = Inr banlist_example
   \<and> fst (get_adminlist world_example) = Inr adminlist_example
   \<and> (\<exists>es. field banlist_example ''banned_users'' = Some (PList es)
         \<and> field banlist_example ''total_banned'' = Some (PAtom (BInt (int (length es))))
         \<and> length es = 2)
   \<and> (\<exists>es. field adminlist_example ''admins'' = Some (PList es)
         \<and> field adminlist_example ''total_admins'' = Some (PAtom (BInt (int (length es))))
         \<and> length es = length admins_example + 1)"
proof -
  note b = get_banlist_example and a = get_adminlist_example
  from totals_are_lengths[of world_example] b
  have "\<exists>es. field banlist_example ''banned_users'' = Some (PList es)
         \<and> field banlist_example ''total_banned'' = Some (PAtom (BInt (int (length es))))"
    by simp
  then have "\<exists>es. field banlist_example ''banned_users'' = Some (PList es)
         \<and> field banlist_example ''total_banned'' = Some (PAtom (BInt (int (length es))))
         \<and> length es = 2"
    by (auto simp: banlist_example_def)
  moreover from totals_are_lengths[of world_example] a
  have "\<exists>es. field adminlist_example ''admins'' = Some (PList es)
         \<and> field adminlist_example ''total_admins'' = Some (PAtom (BInt (int (length es))))
         \<and> length es = length admins_example + 1"
    by (simp add: world_example_reads)
  ultimately show ?thesis using a b by simp
qed

subsection \<open>Failures\<close>

lemma except_raise_Inl:
  "fst (m w) = Inl e \<Longrightarrow> fst (except_Exception m (\<lambda>e. raise h) w) = Inl h"
  by (cases "m w") (auto simp: except_Exception_def raise_def)

lemma except_raise_only:
  "fst (except_Exception m (\<lambda>e. raise h) w) = Inl e \<Longrightarrow> e = h"
  by (cases "m w") (auto simp: except_Exception_def raise_def split: sum.splits)

lemma get_index_cases:
  "fst (get_index w) =
     (case files w ''index.html'' of
        Inr html \<Rightarrow> Inr (HTMLResponse html 200)
      | Inl e \<Rightarrow> if e = FileNotFoundError
                 then Inl (HTTPException 404 ''Index file not found'')
                 else Inl (HTTPException 500 ''Failed to serve index page''))"
  by (simp add: get_index_def except_Exception_def bnd_def read_file_def ret_def raise_def
        split: sum.splits)

lemma failures_example:
  "fst (get_stats_try world_down) = Inl (DriverError ''db.internal:27017: connection refused'')"
  "fst (get_banlist_try world_down) = Inl (DriverError ''db.internal:27017: connection refused'')"
  "fst (get_adminlist_try world_bad_admin) = Inl (AttributeError ''strftime'')"
  "files world_down ''index.html'' = Inl (OSError ''Permission denied'')"
  "files world_no_index ''index.html'' = Inl FileNotFoundError"
  by code_simp+

text \<open>
  C9. Whatever exception the body of a handler raises, the handler raises the fixed
  \<open>HTTPException\<close> of its \<open>except Exception\<close> clause: status 500 and a constant detail
  that does not depend on the exception. For \<open>GET /\<close> this holds for every failure of
  reading the asset other than the missing file, which its own clause turns into the
  fixed 404. No other exception leaves a handler.
\<close>

theorem handlers_generic_error:
  "(\<forall>e. fst (get_stats_try w) = Inl e \<longrightarrow>
        fst (get_stats w) = Inl (HTTPException 500 ''Failed to retrieve stats''))
   \<and> (\<forall>e. fst (get_banlist_try w) = Inl e \<longrightarrow>
        fst (get_banlist w) = Inl (HTTPException 500 ''Failed to retrieve banlist''))
   \<and> (\<forall>e. fst (get_adminlist_try w) = Inl e \<longrightarrow>
        fst (get_adminlist w) = Inl (HTTPException 500 ''Failed to retrieve adminlist''))
   \<and> (\<forall>e. files w ''index.html'' = Inl e \<and> e \<noteq> FileNotFoundError \<longrightarrow>
        fst (get_index w) = Inl (HTTPException 500 ''Failed to serve index page''))
   \<and> (files w ''index.html'' = Inl FileNotFoundError \<longrightarrow>
        fst (get_index w) = Inl (HTTPException 404 ''Index file not found''))
   \<and> (\<forall>e. fst (get_stats w) = Inl e \<longrightarrow> e = HTTPException 500 ''Failed to retrieve stats'')
   \<and> (\<forall>e. fst (get_banlist w) = Inl e \<longrightarrow> e = HTTPException 500 ''Failed to retrieve banlist'')
   \<and> (\<forall>e. fst (get_adminlist w) = Inl e \<longrightarrow>
        e = HTTPException 500 ''Failed to retrieve adminlist'')
   \<and> (\<forall>e. fst (get_index w) = Inl e \<longrightarrow>
        e = HTTPException 500 ''Failed to serve index page''
        \<or> e = HTTPException 404 ''Index file not found'')"
proof (intro conjI allI impI)
  fix e assume "fst (get_stats_try w) = Inl e"
  then show "fst (get_stats w) = Inl (HTTPException 500 ''Failed to retrieve stats'')"
    unfolding get_stats_def by (rule except_raise_Inl)
next
  fix e assume "fst (get_banlist_try w) = Inl e"
  then show "fst (get_banlist w) = Inl (HTTPException 500 ''Failed to retrieve banlist'')"
    unfolding get_banlist_def by (rule except_raise_Inl)
next
  fix e assume "fst (get_adminlist_try w) = Inl e"
  then show "fst (get_adminlist w) = Inl (HTTPException 500 ''Failed to retrieve adminlist'')"
    unfolding get_adminlist_def by (rule except_raise_Inl)
next
  fix e assume "files w ''index.html'' = Inl e \<and> e \<noteq> FileNotFoundError"
  then show "fst (get_index w) = Inl (HTTPException 500 ''Failed to serve index page'')"
    by (simp add: get_index_cases)
next
  assume "files w ''index.html'' = Inl FileNotFoundError"
  then show "fst (get_index w) = Inl (HTTPException 404 ''Index file not found'')"
    by (simp add: get_index_cases)
next
  fix e assume "fst (get_stats w) = Inl e"
  then show "e = HTTPException 500 ''Failed to retrieve stats''"
    unfolding get_stats_def by (rule except_raise_only)
next
  fix e assume "fst (get_banlist w) = Inl e"
  then show "e = HTTPException 500 ''Failed to retrieve banlist''"
    unfolding get_banlist_def by (rule except_raise_only)
next
  fix e assume "fst (get_adminlist w) = Inl e"
  then show "e = HTTPException 500 ''Failed to retrieve adminlist''"
    unfolding get_adminlist_def by (rule except_raise_only)
next
  fix e assume "fst (get_index w) = Inl e"
  then show "e = HTTPException 500 ''Failed to serve index page''
        \<or> e = HTTPException 404 ''Index file not found''"
    by (auto simp: get_index_cases split: sum.splits if_splits)
qed

theorem handlers_generic_error_witness:
  "fst (get_stats_try world_down) = Inl (DriverError ''db.internal:27017: connection refused'')
   \<and> fst (get_stats world_down) = Inl (HTTPException 500 ''Failed to retrieve stats'')
   \<and> fst (get_banlist_try world_down) = Inl (DriverError ''db.internal:27017: connection refused'')
   \<and> fst (get_banlist world_down) = Inl (HTTPException 500 ''Failed to retrieve banlist'')
   \<and> fst (get_adminlist_try world_bad_admin) = Inl (AttributeError ''strftime'')
   \<and> fst (get_adminlist world_bad_admin) = Inl (HTTPException 500 ''Failed to retrieve adminlist'')
   \<and> files world_down ''index.html'' = Inl (OSError ''Permission denied'')
   \<and> fst (get_index world_down) = Inl (HTTPException 500 ''Failed to serve index page'')
   \<and> files world_no_index ''index.html'' = Inl FileNotFoundError
   \<and> fst (get_index world_no_index) = Inl (HTTPException 404 ''Index file not found'')"
proof -
  note f = failures_example
  note down = handlers_generic_error[of world_down]
  note bad = handlers_generic_error[of world_bad_admin]
  note missing = handlers_generic_error[of world_no_index]
  have stats: "fst (get_stats world_down) = Inl (HTTPException 500 ''Failed to retrieve stats'')"
    by (rule down[THEN conjunct1, rule_format, OF f(1)])
  have banlist:
    "fst (get_banlist world_down) = Inl (HTTPException 500 ''Failed to retrieve banlist'')"
    by (rule down[THEN conjunct2, THEN conjunct1, rule_format, OF f(2)])
  have adminlist:
    "fst (get_adminlist world_bad_admin) = Inl (HTTPException 500 ''Failed to retrieve adminlist'')"
    by (rule bad[THEN conjunct2, THEN conjunct2, THEN conjunct1, rule_format, OF f(3)])
  have unreadable: "files world_down ''index.html'' = Inl (OSError ''Permission denied'')
      \<and> OSError ''Permission denied'' \<noteq> FileNotFoundError"
    using f(4) by simp
  have index:
    "fst (get_index world_down) = Inl (HTTPException 500 ''Failed to serve index page'')"
    by (rule down[THEN conjunct2, THEN conjunct2, THEN conjunct2, THEN conjunct1, rule_format,
          OF unreadable])
  have not_found:
    "fst (get_index world_no_index) = Inl (HTTPException 404 ''Index file not found'')"
    by (rule missing[THEN conjunct2, THEN conjunct2, THEN conjunct2, THEN conjunct2,
          THEN conjunct1, rule_format, OF f(5)])
  show ?thesis
    by (intro conjI) (rule f stats banlist adminlist index not_found)+
qed

subsection \<open>Startup\<close>

lemma silent_ret: "silent (ret x)"
  by (simp add: silent_def ret_def)

lemma silent_raise: "silent (raise e)"
  by (simp add: silent_def raise_def)

lemma silent_lift: "silent (lift r)"
  by (simp add: silent_def lift_def)

lemma silent_utcnow: "silent utcnow"
  by (simp add: silent_def utcnow_def)

lemma silent_item: "silent (item d k)"
  by (simp add: silent_def item_def raise_def ret_def split: option.splits)

lemma silent_strftime: "silent (strftime v fmt)"
  by (simp add: silent_def strftime_def raise_def ret_def split: bson.splits)

lemma silent_count_documents: "silent (count_documents c q)"
  by (simp add: silent_def count_documents_def)

lemma silent_find: "silent (find c q proj)"
  by (simp add: silent_def find_def)

lemma silent_read_file: "silent (read_file p)"
  by (simp add: silent_def read_file_def)

lemma silent_if: "silent a \<Longrightarrow> silent b \<Longrightarrow> silent (if c then a else b)"
  by simp

lemma silent_bnd:
  assumes "silent m" and "\<And>x. silent (f x)"
  shows "silent (bnd m f)"
  unfolding silent_def
proof
  fix w
  obtain r w1 where m: "m w = (r, w1)"
    by (cases "m w")
  with assms(1) have w1: "trace w1 = trace w"
    by (auto simp: silent_def dest: spec[of _ w])
  show "trace (snd (bnd m f w)) = trace w"
  proof (cases r)
    case (Inl e)
    with m w1 show ?thesis by (simp add: bnd_def)
  next
    case (Inr x)
    from assms(2)[of x] have "trace (snd (f x w1)) = trace w1"
      by (simp add: silent_def)
    with Inr m w1 show ?thesis by (simp add: bnd_def)
  qed
qed

lemma silent_except:
  assumes "silent m" and "\<And>e. silent (h e)"
  shows "silent (except_Exception m h)"
  unfolding silent_def
proof
  fix w
  obtain r w1 where m: "m w = (r, w1)"
    by (cases "m w")
  with assms(1) have w1: "trace w1 = trace w"
    by (auto simp: silent_def dest: spec[of _ w])
  show "trace (snd (except_Exception m h w)) = trace w"
  proof (cases r)
    case (Inl e)
    from assms(2)[of e] have "trace (snd (h e w1)) = trace w1"
      by (simp add: silent_def)
    with Inl m w1 show ?thesis by (simp add: except_Exception_def)
  next
    case (Inr x)
    with m w1 show ?thesis by (simp add: except_Exception_def)
  qed
qed

lemma silent_mapM:
  assumes "\<And>x. silent (f x)"
  shows "silent (mapM f xs)"
  by (induction xs) (auto intro!: silent_ret silent_bnd assms)

lemmas silent_intros =
  silent_ret silent_raise silent_lift silent_utcnow silent_item silent_strftime
  silent_count_documents silent_find silent_read_file silent_if silent_bnd silent_except
  silent_mapM

lemma silent_get_index: "silent get_index"
  unfolding get_index_def by (intro silent_intros)

lemma silent_get_stats: "silent get_stats"
  unfolding get_stats_def get_stats_try_def by (intro silent_intros)

lemma silent_get_banlist: "silent get_banlist"
  unfolding get_banlist_def get_banlist_try_def banned_entry_def by (intro silent_intros)

lemma silent_get_adminlist: "silent get_adminlist"
  unfolding get_adminlist_def get_adminlist_try_def admin_entry_def admin_auth_date_def
    admin_auth_time_def Let_def
  by (intro silent_intros)

lemma handle_trace: "trace (handle r w) = trace w @ [Served r]"
  using silent_get_index silent_get_stats silent_get_banlist silent_get_adminlist
  by (cases r) (simp_all add: handle_def silent_def)

lemma fold_handle_trace: "trace (fold handle reqs w) = trace w @ map Served reqs"
  by (induction reqs arbitrary: w) (simp_all add: handle_trace)

text \<open>
  The router of \<open>app\<close> holds the default context: the assignment \<open>app.lifespan = lifespan\<close>
  does not reach it.
\<close>

lemma app_lifespan_context: "lifespan_context app = default_lifespan"
  by (simp add: app_def setattr_def FastAPI_def)

text \<open>
  Serving \<open>app\<close> issues no liveness command and never refuses to start: whatever the
  liveness commands would return, every request is handled.
\<close>

lemma serve_app_trace: "trace (serve app reqs w) = trace w @ map Served reqs"
  by (simp add: serve_def app_lifespan_context default_lifespan_def ret_def fold_handle_trace)

text \<open>
  Had \<open>lifespan\<close> been passed to the constructor, startup would issue the liveness command
  on both clients, in order, and no request would be handled unless both succeed.
\<close>

lemma serve_registered_trace:
  "trace (serve (FastAPI (Some lifespan)) reqs w) = trace w @
     (case ping_result w MONGO_CLIENT of
        Some e \<Rightarrow> [Pinged MONGO_CLIENT, StartupFailed]
      | None \<Rightarrow>
         (case ping_result w mongo_client of
            Some e \<Rightarrow> [Pinged MONGO_CLIENT, Pinged mongo_client, StartupFailed]
          | None \<Rightarrow> [Pinged MONGO_CLIENT, Pinged mongo_client] @ map Served reqs
                      @ [Closed MONGO_CLIENT, Closed mongo_client]))"
  by (simp add: serve_def FastAPI_def lifespan_def except_Exception_def bnd_def command_ping_def
        raise_def close_def fold_handle_trace split: option.splits)

text \<open>
  C1. With both databases unreachable, so that the liveness command would raise on either
  client, the service as \<open>api.py\<close> builds it starts and handles a request to
  \<open>GET /api/stats\<close> without having issued any liveness command. (With the lifespan
  registered in the router the same start is refused after the first command.)
\<close>

theorem app_serves_without_liveness_check:
  "ping_result world_down MONGO_CLIENT
     = Some (DriverError ''db.internal:27017: connection refused'')
   \<and> ping_result world_down mongo_client
     = Some (DriverError ''db.internal:27017: connection refused'')
   \<and> trace (serve app [GET_stats] world_down) = [Served GET_stats]
   \<and> trace (serve (FastAPI (Some lifespan)) [GET_stats] world_down)
     = [Pinged MONGO_CLIENT, StartupFailed]"
  by (simp add: serve_app_trace serve_registered_trace world_down_def world_example_def)


end
